theory Spec2Isabelle
  imports Main "HOL-Library.Char_ord" "HOL-Library.List_Lexorder"
begin

section \<open>Python values and helpers\<close>

text \<open>
  The report generator works on decoded JSON: tickets, their nested variable bags and the
  rule records are dictionaries read with \<open>.get\<close>. A decoded value is one of the
  following; Python's \<open>None\<close> is \<open>JNull\<close>, a dictionary is an association list
  (a decoded dictionary has distinct keys), and floating-point numbers are left out.
  One \<open>char\<close> stands for one Python character.
\<close>

datatype json =
    JNull
  | JBool bool
  | JNum int
  | JStr string
  | JArr "json list"
  | JObj "(string \<times> json) list"

datatype exn =
    AttributeError
  | TypeError
  | ValueError
  | KeyError
  | JSONDecodeError
  | RequestException
  | MailException

text \<open>What a call does: it returns, it calls \<open>sys.exit\<close>, or an exception leaves it.\<close>

datatype 'a outcome = Return 'a | Exit int | Raise exn

definition bindE :: "exn + 'a \<Rightarrow> ('a \<Rightarrow> exn + 'b) \<Rightarrow> exn + 'b" where
  "bindE m f = (case m of Inl e \<Rightarrow> Inl e | Inr v \<Rightarrow> f v)"

fun map_exn :: "('a \<Rightarrow> exn + 'b) \<Rightarrow> 'a list \<Rightarrow> exn + 'b list" where
  "map_exn f [] = Inr []"
| "map_exn f (x # xs) =
     bindE (f x) (\<lambda>y. bindE (map_exn f xs) (\<lambda>ys. Inr (y # ys)))"

text \<open>Truth value of a Python object, as \<open>if x:\<close> tests it.\<close>

fun truthy :: "json \<Rightarrow> bool" where
  "truthy JNull = False"
| "truthy (JBool b) = b"
| "truthy (JNum n) = (n \<noteq> 0)"
| "truthy (JStr s) = (s \<noteq> [])"
| "truthy (JArr xs) = (xs \<noteq> [])"
| "truthy (JObj kvs) = (kvs \<noteq> [])"

text \<open>\<open>d.get(k, default)\<close>: only a dictionary has \<open>get\<close>.\<close>

fun py_get :: "json \<Rightarrow> string \<Rightarrow> json \<Rightarrow> exn + json" where
  "py_get (JObj kvs) k d = Inr (case map_of kvs k of Some v \<Rightarrow> v | None \<Rightarrow> d)"
| "py_get JNull k d = Inl AttributeError"
| "py_get (JBool b) k d = Inl AttributeError"
| "py_get (JNum n) k d = Inl AttributeError"
| "py_get (JStr s) k d = Inl AttributeError"
| "py_get (JArr xs) k d = Inl AttributeError"

text \<open>\<open>d[k]\<close> with a string key.\<close>

fun py_item :: "json \<Rightarrow> string \<Rightarrow> exn + json" where
  "py_item (JObj kvs) k = (case map_of kvs k of Some v \<Rightarrow> Inr v | None \<Rightarrow> Inl KeyError)"
| "py_item JNull k = Inl TypeError"
| "py_item (JBool b) k = Inl TypeError"
| "py_item (JNum n) k = Inl TypeError"
| "py_item (JStr s) k = Inl TypeError"
| "py_item (JArr xs) k = Inl TypeError"

text \<open>\<open>d.keys()\<close>.\<close>

fun py_keys :: "json \<Rightarrow> exn + string list" where
  "py_keys (JObj kvs) = Inr (map fst kvs)"
| "py_keys JNull = Inl AttributeError"
| "py_keys (JBool b) = Inl AttributeError"
| "py_keys (JNum n) = Inl AttributeError"
| "py_keys (JStr s) = Inl AttributeError"
| "py_keys (JArr xs) = Inl AttributeError"

text \<open>The elements a \<open>for\<close> loop or \<open>list.extend\<close> draws from a value.\<close>

fun py_iter :: "json \<Rightarrow> exn + json list" where
  "py_iter (JArr xs) = Inr xs"
| "py_iter (JStr s) = Inr (map (\<lambda>c. JStr [c]) s)"
| "py_iter (JObj kvs) = Inr (map (\<lambda>kv. JStr (fst kv)) kvs)"
| "py_iter JNull = Inl TypeError"
| "py_iter (JBool b) = Inl TypeError"
| "py_iter (JNum n) = Inl TypeError"

text \<open>\<open>sep.join(xs)\<close>: every element must be a string.\<close>

fun py_join :: "string \<Rightarrow> json list \<Rightarrow> exn + string" where
  "py_join sep [] = Inr []"
| "py_join sep [JStr s] = Inr s"
| "py_join sep (JStr s # y # ys) = bindE (py_join sep (y # ys)) (\<lambda>r. Inr (s @ sep @ r))"
| "py_join sep (x # xs) = Inl TypeError"

text \<open>ASCII letter case, for \<open>str.lower\<close> and \<open>str.title\<close>.\<close>

definition upper_letters :: string where
  "upper_letters = ''ABCDEFGHIJKLMNOPQRSTUVWXYZ''"

definition lower_letters :: string where
  "lower_letters = ''abcdefghijklmnopqrstuvwxyz''"

definition to_lower :: "char \<Rightarrow> char" where
  "to_lower c = (case map_of (zip upper_letters lower_letters) c of Some d \<Rightarrow> d | None \<Rightarrow> c)"

definition to_upper :: "char \<Rightarrow> char" where
  "to_upper c = (case map_of (zip lower_letters upper_letters) c of Some d \<Rightarrow> d | None \<Rightarrow> c)"

definition lower :: "string \<Rightarrow> string" where
  "lower s = map to_lower s"

text \<open>
  \<open>str.title\<close>: a letter that follows a letter is lowered, any other letter is raised.
\<close>

fun title_from :: "bool \<Rightarrow> string \<Rightarrow> string" where
  "title_from prev [] = []"
| "title_from prev (c # cs) =
     (if c \<in> set lower_letters then (if prev then c else to_upper c) # title_from True cs
      else if c \<in> set upper_letters then (if prev then to_lower c else c) # title_from True cs
      else c # title_from False cs)"

definition title :: "string \<Rightarrow> string" where
  "title s = title_from False s"

text \<open>\<open>str(n)\<close> for an integer.\<close>

fun digits :: "nat \<Rightarrow> string" where
  "digits n = (if n < 10 then [''0123456789'' ! n] else digits (n div 10) @ [''0123456789'' ! (n mod 10)])"

definition str_int :: "int \<Rightarrow> string" where
  "str_int i = (if i < 0 then ''-'' @ digits (nat (- i)) else digits (nat i))"

section \<open>Requests and effects\<close>

text \<open>
  A request either raises \<open>RequestException\<close> or yields a response: its status code and
  what \<open>response.json()\<close> gives (\<open>None\<close> when the body is not JSON, where
  \<open>response.json()\<close> raises \<open>JSONDecodeError\<close>).
\<close>

datatype http_result = Request_exception | Response int "json option"

datatype logmsg =
    Auth_request_error
  | Auth_token_missing
  | Auth_failed int
  | Fetch_request_error nat
  | Fetch_parse_error
  | Fetch_http_error int
  | Row_error json exn
  | Html_row_error exn
  | Local_mail_failed exn
  | Email_failed exn

text \<open>
  What a cell of the HTML table holds: plain text, a link (target and text), the status
  badge (class and text), or a documentation cell (hover title and visible text).
\<close>

datatype cell =
    Text string
  | Link string string
  | Status_badge string string
  | Doc_cell string string

record html_row =
  base_cells :: "cell list"
  detail_cells :: "cell list"
  doc_cells :: "cell list"

record html_doc =
  total_count :: nat
  review_count :: nat
  completed_count :: nat
  cancelled_count :: nat
  detail_headers :: "string list"
  doc_headers :: "(string \<times> string) list"
  table_rows :: "html_row list"

text \<open>
  The effects the claims speak about: an error written to the log, a rule-detail search
  request, the printed warning about requested documentation fields that were not found,
  the creation of the reports directory, the report files, the saved configuration, the
  mail handed to the transport and the printed final summary.
\<close>

datatype event =
    Log_error logmsg
  | Rule_lookup json json json
  | Warn_missing "string set"
  | Make_dirs string
  | Write_csv string "string list" "json list list"
  | Write_html string html_doc
  | Save_config
  | Mail_sent "string list"
  | Mail_refused string
  | Summary nat nat nat nat

type_synonym 'a run = "event list \<times> 'a outcome"

definition bindR :: "'a run \<Rightarrow> ('a \<Rightarrow> 'b run) \<Rightarrow> 'b run" where
  "bindR m f =
     (case m of
        (evs, Return v) \<Rightarrow> (case f v of (evs', r) \<Rightarrow> (evs @ evs', r))
      | (evs, Exit c) \<Rightarrow> (evs, Exit c)
      | (evs, Raise e) \<Rightarrow> (evs, Raise e))"

definition liftE :: "exn + 'a \<Rightarrow> 'a run" where
  "liftE m = (case m of Inl e \<Rightarrow> ([], Raise e) | Inr v \<Rightarrow> ([], Return v))"

section \<open>Authentication\<close>

text \<open>
  \<open>authenticate\<close>: one POST; a request failure, a status other than 200 and a response
  without the key \<open>token\<close> are logged and end the process with status 1. Only
  \<open>KeyError\<close> is caught around \<open>response.json()['token']\<close>.
\<close>

definition authenticate :: "http_result \<Rightarrow> json run" where
  "authenticate post =
     (case post of
        Request_exception \<Rightarrow> ([Log_error Auth_request_error], Exit 1)
      | Response code body \<Rightarrow>
          if code = 200 then
            (case body of
               None \<Rightarrow> ([], Raise JSONDecodeError)
             | Some data \<Rightarrow>
                 (case py_item data ''token'' of
                    Inr token \<Rightarrow> ([], Return token)
                  | Inl e \<Rightarrow>
                      if e = KeyError then ([Log_error Auth_token_missing], Exit 1)
                      else ([], Raise e)))
          else ([Log_error (Auth_failed code)], Exit 1))"

section \<open>Ticket fetcher\<close>

text \<open>
  The filter expression of \<open>get_po_tickets\<close>. \<open>if days_filter\<close> and
  \<open>if status_filter\<close> test truth: a lookback of 0 and an empty status count as absent,
  and the status is compared with \<open>all\<close> after lowering.
\<close>

definition days_given :: "int option \<Rightarrow> int option" where
  "days_given days_filter =
     (case days_filter of None \<Rightarrow> None | Some d \<Rightarrow> if d \<noteq> 0 then Some d else None)"

definition status_given :: "string option \<Rightarrow> string option" where
  "status_given status_filter =
     (case status_filter of
        None \<Rightarrow> None
      | Some s \<Rightarrow> if s \<noteq> [] \<and> lower s \<noteq> ''all'' then Some s else None)"

definition quoted :: "string \<Rightarrow> string" where
  "quoted s = [CHR 0x27] @ s @ [CHR 0x27]"

definition build_query :: "int \<Rightarrow> string option \<Rightarrow> int option \<Rightarrow> string" where
  "build_query workflow_id status_filter days_filter =
     (case days_given days_filter of
        Some d \<Rightarrow>
          (case status_given status_filter of
             Some s \<Rightarrow>
               ''review { (workflow = '' @ str_int workflow_id @ '' AND status = '' @ quoted s
                 @ '' AND created ~ DATE('' @ quoted (''-'' @ str_int d @ '' days'') @ '')) }''
           | None \<Rightarrow>
               ''review { (workflow = '' @ str_int workflow_id
                 @ '' AND created ~ DATE('' @ quoted (''-'' @ str_int d @ '' days'') @ '')) }'')
      | None \<Rightarrow>
          (case status_given status_filter of
             Some s \<Rightarrow>
               ''review { workflow = '' @ str_int workflow_id @ '' AND status = '' @ quoted s @ '' }''
           | None \<Rightarrow> ''review { workflow = '' @ str_int workflow_id @ '' }''))"

definition page_size :: nat where
  "page_size = 100"

text \<open>The handler around the parsing of a page: \<open>except KeyError\<close>.\<close>

definition on_parse_exn :: "exn \<Rightarrow> json list run" where
  "on_parse_exn e = (if e = KeyError then ([Log_error Fetch_parse_error], Exit 1) else ([], Raise e))"

text \<open>
  The \<open>while True\<close> loop. \<open>http page size\<close> is the GET of the paged search for the
  encoded query; the loop has no bound of its own, so it is a partial function and
  \<open>None\<close> stands for a run that never leaves it.
\<close>

partial_function (option) fetch_pages ::
  "(nat \<Rightarrow> nat \<Rightarrow> http_result) \<Rightarrow> nat \<Rightarrow> json list \<Rightarrow> json list run option" where
  "fetch_pages http page all_tickets =
     (case http page page_size of
        Request_exception \<Rightarrow> Some ([Log_error (Fetch_request_error page)], Exit 1)
      | Response code body \<Rightarrow>
          if code = 200 then
            (case body of
               None \<Rightarrow> Some ([], Raise JSONDecodeError)
             | Some data \<Rightarrow>
                 (case py_get data ''results'' (JArr []) of
                    Inl e \<Rightarrow> Some (on_parse_exn e)
                  | Inr tickets \<Rightarrow>
                      if \<not> truthy tickets then Some ([], Return all_tickets)
                      else
                        (case py_iter tickets of
                           Inl e \<Rightarrow> Some (on_parse_exn e)
                         | Inr ts \<Rightarrow>
                             if length ts < page_size then Some ([], Return (all_tickets @ ts))
                             else fetch_pages http (Suc page) (all_tickets @ ts))))
          else Some ([Log_error (Fetch_http_error code)], Exit 1))"

definition get_po_tickets ::
  "(string \<Rightarrow> string) \<Rightarrow> (string \<Rightarrow> nat \<Rightarrow> nat \<Rightarrow> http_result) \<Rightarrow> int \<Rightarrow> string option \<Rightarrow> int option
     \<Rightarrow> json list run option" where
  "get_po_tickets quote http workflow_id status_filter days_filter =
     fetch_pages (http (quote (build_query workflow_id status_filter days_filter))) 0 []"

section \<open>Rule enricher\<close>

text \<open>
  \<open>get_rule_details\<close>: one GET inside a bare \<open>except: pass\<close>. Whatever goes wrong, the
  result is \<open>None\<close> and nothing is logged. \<open>first_result\<close> is \<open>data['results'][0]\<close>
  for a true \<open>results\<close> value; where Python raises, the bare handler gives \<open>None\<close>.
\<close>

fun first_result :: "json \<Rightarrow> json" where
  "first_result (JArr (x # xs)) = x"
| "first_result (JStr (c # cs)) = JStr [c]"
| "first_result v = JNull"

definition get_rule_details ::
  "(json \<Rightarrow> json \<Rightarrow> json \<Rightarrow> http_result) \<Rightarrow> json \<Rightarrow> json \<Rightarrow> json \<Rightarrow> event list \<times> json" where
  "get_rule_details http device_id policy_guid rule_guid =
     ([Rule_lookup device_id policy_guid rule_guid],
      (case http device_id policy_guid rule_guid of
         Request_exception \<Rightarrow> JNull
       | Response code body \<Rightarrow>
           if code = 200 then
             (case body of
                None \<Rightarrow> JNull
              | Some data \<Rightarrow>
                  (case py_get data ''results'' JNull of
                     Inl e \<Rightarrow> JNull
                   | Inr results \<Rightarrow> if truthy results then first_result results else JNull))
           else JNull))"

section \<open>Row projector\<close>

definition NA :: json where
  "NA = JStr ''N/A''"

definition available_detail_fields :: "string list" where
  "available_detail_fields = [''source'', ''destination'', ''service'', ''application'', ''action'']"

text \<open>The requested detail fields: all five by default, else the known ones among them.\<close>

definition select_detail_fields :: "string list option \<Rightarrow> string list" where
  "select_detail_fields rule_detail_fields =
     (case rule_detail_fields of
        None \<Rightarrow> available_detail_fields
      | Some fs \<Rightarrow> filter (\<lambda>f. f \<in> set available_detail_fields) fs)"

text \<open>
  The documentation columns, decided once after the scan: \<open>all_prop_fields\<close> holds the
  keys met during the scan (a Python set; only membership and the sorted list are used).
\<close>

definition sorted_prop_fields :: "bool \<Rightarrow> string list option \<Rightarrow> string list \<Rightarrow> string list" where
  "sorted_prop_fields include_rule_docs rule_doc_fields all_prop_fields =
     (if include_rule_docs then
        (case rule_doc_fields of
           None \<Rightarrow> sort (remdups all_prop_fields)
         | Some fs \<Rightarrow> filter (\<lambda>f. f \<in> set all_prop_fields) fs)
      else [])"

text \<open>The warning that only \<open>process_tickets_to_csv\<close> prints.\<close>

definition missing_warning :: "bool \<Rightarrow> string list option \<Rightarrow> string list \<Rightarrow> event list" where
  "missing_warning include_rule_docs rule_doc_fields cols =
     (if include_rule_docs then
        (case rule_doc_fields of
           None \<Rightarrow> []
         | Some fs \<Rightarrow>
             if fs \<noteq> [] \<and> length cols < length fs then [Warn_missing (set fs - set cols)]
             else [])
      else [])"

definition base_headers :: "string list" where
  "base_headers =
     [''Ticket ID'', ''Created Date'', ''Completed Date'', ''Status'',
      ''Device Name'', ''Device ID'', ''Policy Name'', ''Rule Number'', ''Rule Name'',
      ''Assignee/Completed By'', ''Created By'']"

definition replace_char :: "char \<Rightarrow> char \<Rightarrow> string \<Rightarrow> string" where
  "replace_char a b s = map (\<lambda>c. if c = a then b else c) s"

definition header_name :: "string \<Rightarrow> string" where
  "header_name field = title (replace_char CHR ''_'' CHR '' '' field)"

definition doc_header :: "string \<Rightarrow> string" where
  "doc_header field = ''Rule Doc: '' @ header_name field"

definition csv_headers :: "bool \<Rightarrow> bool \<Rightarrow> string list \<Rightarrow> string list \<Rightarrow> string list" where
  "csv_headers include_rule_details include_rule_docs rule_detail_fields cols =
     base_headers
     @ (if include_rule_details then map title rule_detail_fields else [])
     @ (if include_rule_docs \<and> cols \<noteq> [] then map doc_header cols else [])"

text \<open>
  The date columns: \<open>fmt_date\<close> stands for \<open>fromisoformat\<close> after the replacement of \<open>Z\<close>,
  followed by \<open>strftime\<close>; it gives \<open>None\<close> where \<open>fromisoformat\<close> raises.
\<close>

definition format_date :: "(string \<Rightarrow> string option) \<Rightarrow> json \<Rightarrow> exn + json" where
  "format_date fmt_date d =
     (if d \<noteq> NA then
        (case d of
           JStr s \<Rightarrow> (case fmt_date s of Some t \<Rightarrow> Inr (JStr t) | None \<Rightarrow> Inl ValueError)
         | _ \<Rightarrow> Inl AttributeError)
      else Inr d)"

text \<open>\<open>p.get('displayName', p.get('username', 'N/A'))\<close>\<close>

definition person_name :: "json \<Rightarrow> exn + json" where
  "person_name p = bindE (py_get p ''username'' NA) (\<lambda>u. py_get p ''displayName'' u)"

definition assignee_completed_of :: "json \<Rightarrow> json \<Rightarrow> exn + json" where
  "assignee_completed_of ticket status =
     (if status = JStr ''Review'' then
        bindE (py_get ticket ''assignee'' (JObj []))
          (\<lambda>assignee. if truthy assignee then person_name assignee else Inr NA)
      else if status \<in> set [JStr ''Completed'', JStr ''Cancelled''] then
        bindE (py_get ticket ''completedBy'' (JObj []))
          (\<lambda>completed_by. if truthy completed_by then person_name completed_by else Inr NA)
      else Inr NA)"

definition created_by_name_of :: "json \<Rightarrow> exn + json" where
  "created_by_name_of ticket =
     bindE (py_get ticket ''createdBy'' (JObj []))
       (\<lambda>created_by. if truthy created_by then person_name created_by else Inr NA)"

text \<open>
  The five rule configuration values. Both renderers compute them with the same
  statements, in the order source, destination, service, application, action.
\<close>

definition names_of :: "string \<Rightarrow> json \<Rightarrow> exn + json list" where
  "names_of key xs = bindE (py_iter xs) (map_exn (\<lambda>x. py_get x key NA))"

definition joined_or_any :: "json list \<Rightarrow> exn + json" where
  "joined_or_any names =
     (if names \<noteq> [] then bindE (py_join '', '' names) (\<lambda>s. Inr (JStr s)) else Inr (JStr ''Any''))"

definition source_value :: "json \<Rightarrow> exn + json" where
  "source_value rule_details =
     bindE (py_get rule_details ''sources'' (JArr []))
       (\<lambda>sources. bindE (names_of ''displayName'' sources) joined_or_any)"

definition destination_value :: "json \<Rightarrow> exn + json" where
  "destination_value rule_details =
     bindE (py_get rule_details ''destinations'' (JArr []))
       (\<lambda>destinations. bindE (names_of ''displayName'' destinations) joined_or_any)"

definition service_value :: "json \<Rightarrow> exn + json" where
  "service_value rule_details =
     bindE (py_get rule_details ''services'' (JArr []))
       (\<lambda>services. bindE (py_iter services)
          (\<lambda>svcs. bindE
             (map_exn (\<lambda>svc. bindE (py_get svc ''services'' (JArr [])) (names_of ''formattedValue'')) svcs)
             (\<lambda>service_names. joined_or_any (concat service_names))))"

definition app_name :: "json \<Rightarrow> exn + json list" where
  "app_name app =
     bindE (py_get app ''displayName'' JNull)
       (\<lambda>d. if d \<noteq> JStr ''Any'' then bindE (py_get app ''displayName'' NA) (\<lambda>n. Inr [n]) else Inr [])"

definition application_value :: "json \<Rightarrow> exn + json" where
  "application_value rule_details =
     bindE (py_get rule_details ''apps'' (JArr []))
       (\<lambda>apps. bindE (py_iter apps)
          (\<lambda>xs. bindE (map_exn app_name xs) (\<lambda>app_names. joined_or_any (concat app_names))))"

definition action_value :: "json \<Rightarrow> exn + json" where
  "action_value rule_details = py_get rule_details ''ruleAction'' NA"

definition detail_value :: "string \<Rightarrow> json \<Rightarrow> exn + json" where
  "detail_value field rule_details =
     (if field = ''source'' then source_value rule_details
      else if field = ''destination'' then destination_value rule_details
      else if field = ''service'' then service_value rule_details
      else if field = ''application'' then application_value rule_details
      else action_value rule_details)"

definition rule_detail_values :: "string list \<Rightarrow> json \<Rightarrow> exn + (string \<times> json) list" where
  "rule_detail_values rule_detail_fields rule_details =
     map_exn (\<lambda>f. bindE (detail_value f rule_details) (\<lambda>v. Inr (f, v)))
       (filter (\<lambda>f. f \<in> set rule_detail_fields) available_detail_fields)"

section \<open>CSV renderer\<close>

text \<open>
  The first loop of \<open>process_tickets_to_csv\<close>: the rule of a ticket is looked up only
  when one of the two inclusion flags is set and the ticket carries a device id and two
  true guids. The loop is outside any \<open>try\<close>: an exception here leaves the function.
\<close>

definition csv_enrich ::
  "(json \<Rightarrow> json \<Rightarrow> json \<Rightarrow> http_result) \<Rightarrow> bool \<Rightarrow> bool \<Rightarrow> json \<Rightarrow> (json \<times> string list) run" where
  "csv_enrich http include_rule_details include_rule_docs ticket =
     (if include_rule_details \<or> include_rule_docs then
        bindR (liftE (py_get ticket ''variables'' (JObj []))) (\<lambda>variables.
        bindR (liftE (py_get variables ''deviceId'' NA)) (\<lambda>device_id.
        bindR (liftE (py_get variables ''ruleGuid'' (JStr ''''))) (\<lambda>rule_guid.
        bindR (liftE (py_get variables ''policyGuid'' (JStr ''''))) (\<lambda>policy_guid.
          if truthy rule_guid \<and> truthy policy_guid \<and> device_id \<noteq> NA then
            (case get_rule_details http device_id policy_guid rule_guid of
               (evs, rule_details) \<Rightarrow>
                 if truthy rule_details then
                   (if include_rule_docs then
                      bindR (evs, Return ()) (\<lambda>u.
                      bindR (liftE (py_get rule_details ''props'' (JObj []))) (\<lambda>props.
                      bindR (liftE (py_keys props)) (\<lambda>ks. ([], Return (rule_details, ks)))))
                    else (evs, Return (rule_details, [])))
                 else (evs, Return (JNull, [])))
          else ([], Return (JNull, []))))))
      else ([], Return (JNull, [])))"

fun csv_scan ::
  "(json \<Rightarrow> json \<Rightarrow> json \<Rightarrow> http_result) \<Rightarrow> bool \<Rightarrow> bool \<Rightarrow> json list
     \<Rightarrow> ((json \<times> json) list \<times> string list) run" where
  "csv_scan http include_rule_details include_rule_docs [] = ([], Return ([], []))"
| "csv_scan http include_rule_details include_rule_docs (ticket # rest) =
     bindR (csv_enrich http include_rule_details include_rule_docs ticket) (\<lambda>(rule_details, ks).
     bindR (csv_scan http include_rule_details include_rule_docs rest) (\<lambda>(tickets_with_details, all_prop_fields).
       ([], Return ((ticket, rule_details) # tickets_with_details, ks @ all_prop_fields))))"

text \<open>
  The body of the \<open>try\<close> of the second loop: \<open>row_data\<close> as the list of its
  assignments, in order. A later assignment to the same key replaces the earlier one, so a
  row is read from the end (\<open>row_get\<close>). \<open>csv_details\<close> and \<open>csv_docs\<close> are the two
  blocks that add the selected rule configuration and documentation fields.
\<close>

definition csv_details :: "bool \<Rightarrow> string list \<Rightarrow> json \<Rightarrow> exn + (string \<times> json) list" where
  "csv_details include_rule_details rule_detail_fields rule_details =
     (if include_rule_details then
        (if truthy rule_details then
           bindE (rule_detail_values rule_detail_fields rule_details)
             (\<lambda>kvs. Inr (map (\<lambda>kv. (title (fst kv), snd kv)) kvs))
         else Inr (map (\<lambda>f. (title f, NA)) rule_detail_fields))
      else Inr [])"

definition csv_docs :: "bool \<Rightarrow> string list \<Rightarrow> json \<Rightarrow> exn + (string \<times> json) list" where
  "csv_docs include_rule_docs cols rule_details =
     (if include_rule_docs \<and> cols \<noteq> [] then
        (if truthy rule_details then
           bindE (py_get rule_details ''props'' (JObj []))
             (\<lambda>props. map_exn (\<lambda>f. bindE (py_get props f NA) (\<lambda>v. Inr (doc_header f, v))) cols)
         else Inr (map (\<lambda>f. (doc_header f, NA)) cols))
      else Inr [])"

definition csv_row ::
  "(string \<Rightarrow> string option) \<Rightarrow> bool \<Rightarrow> bool \<Rightarrow> string list \<Rightarrow> string list \<Rightarrow> json \<Rightarrow> json
     \<Rightarrow> exn + (string \<times> json) list" where
  "csv_row fmt_date include_rule_details include_rule_docs rule_detail_fields cols ticket rule_details =
     bindE (py_get ticket ''businessKey'' NA) (\<lambda>business_key.
     bindE (py_get ticket ''createdDate'' NA) (\<lambda>created.
     bindE (py_get ticket ''completed'' NA) (\<lambda>completed.
     bindE (py_get ticket ''status'' NA) (\<lambda>status.
     bindE (format_date fmt_date created) (\<lambda>created_date.
     bindE (format_date fmt_date completed) (\<lambda>completed_date.
     bindE (py_get ticket ''variables'' (JObj [])) (\<lambda>variables.
     bindE (py_get variables ''deviceName'' NA) (\<lambda>device_name.
     bindE (py_get variables ''deviceId'' NA) (\<lambda>device_id.
     bindE (py_get variables ''policyName'' NA) (\<lambda>policy_name0.
     bindE (py_get variables ''policyDisplayName'' policy_name0) (\<lambda>policy_name.
     bindE (py_get variables ''ruleNumber'' NA) (\<lambda>rule_number.
     bindE (assignee_completed_of ticket status) (\<lambda>assignee_completed.
     bindE (created_by_name_of ticket) (\<lambda>created_by_name.
     bindE (if truthy rule_details then py_get rule_details ''ruleName'' NA else Inr NA) (\<lambda>rule_name.
     bindE (csv_details include_rule_details rule_detail_fields rule_details) (\<lambda>details.
     bindE (csv_docs include_rule_docs cols rule_details) (\<lambda>docs.
       Inr ([(''Ticket ID'', business_key),
             (''Created Date'', created_date),
             (''Completed Date'', if completed_date \<noteq> NA then completed_date else JStr []),
             (''Status'', status),
             (''Device Name'', device_name),
             (''Device ID'', device_id),
             (''Policy Name'', policy_name),
             (''Rule Number'', rule_number),
             (''Rule Name'', NA),
             (''Assignee/Completed By'', assignee_completed),
             (''Created By'', created_by_name),
             (''Rule Name'', rule_name)]
            @ details @ docs))))))))))))))))))"

definition row_get :: "(string \<times> json) list \<Rightarrow> string \<Rightarrow> json option" where
  "row_get row_data h = map_of (rev row_data) h"

text \<open>\<open>DictWriter.writerow\<close>: one value per header, the empty string where the row has none.\<close>

definition written_line :: "string list \<Rightarrow> (string \<times> json) list \<Rightarrow> json list" where
  "written_line headers row_data =
     map (\<lambda>h. case row_get row_data h of Some v \<Rightarrow> v | None \<Rightarrow> JStr []) headers"

text \<open>
  The second loop. An exception in a row is logged with the ticket's business key and
  the row is skipped; the handler reads the key with \<open>ticket.get\<close>, which itself raises
  when the ticket is no dictionary.
\<close>

fun csv_rows ::
  "(string \<Rightarrow> string option) \<Rightarrow> bool \<Rightarrow> bool \<Rightarrow> string list \<Rightarrow> string list \<Rightarrow> string list
     \<Rightarrow> (json \<times> json) list \<Rightarrow> event list \<times> json list list \<times> exn option" where
  "csv_rows fmt_date include_rule_details include_rule_docs rule_detail_fields cols headers [] =
     ([], [], None)"
| "csv_rows fmt_date include_rule_details include_rule_docs rule_detail_fields cols headers (td # rest) =
     (case csv_row fmt_date include_rule_details include_rule_docs rule_detail_fields cols (fst td) (snd td) of
        Inr row_data \<Rightarrow>
          (case csv_rows fmt_date include_rule_details include_rule_docs rule_detail_fields cols headers rest of
             (evs, lines, x) \<Rightarrow> (evs, written_line headers row_data # lines, x))
      | Inl e \<Rightarrow>
          (case py_get (fst td) ''businessKey'' (JStr ''unknown'') of
             Inl e' \<Rightarrow> ([], [], Some e')
           | Inr k \<Rightarrow>
               (case csv_rows fmt_date include_rule_details include_rule_docs rule_detail_fields cols headers rest of
                  (evs, lines, x) \<Rightarrow> (Log_error (Row_error k e) # evs, lines, x))))"

definition process_tickets_to_csv ::
  "(json \<Rightarrow> json \<Rightarrow> json \<Rightarrow> http_result) \<Rightarrow> (string \<Rightarrow> string option) \<Rightarrow> json list \<Rightarrow> string
     \<Rightarrow> bool \<Rightarrow> bool \<Rightarrow> string list option \<Rightarrow> string list option \<Rightarrow> nat run" where
  "process_tickets_to_csv http fmt_date tickets output_file include_rule_details include_rule_docs
       rule_detail_fields rule_doc_fields =
     bindR (csv_scan http include_rule_details include_rule_docs tickets) (\<lambda>scanned.
       let detail_fields = select_detail_fields rule_detail_fields;
           cols = sorted_prop_fields include_rule_docs rule_doc_fields (snd scanned);
           headers = csv_headers include_rule_details include_rule_docs detail_fields cols
       in (case csv_rows fmt_date include_rule_details include_rule_docs detail_fields cols headers (fst scanned) of
             (evs, lines, x) \<Rightarrow>
               (missing_warning include_rule_docs rule_doc_fields cols @ evs
                  @ [Write_csv output_file headers lines],
                (case x of None \<Rightarrow> Return (length lines) | Some e \<Rightarrow> Raise e))))"

section \<open>HTML renderer\<close>

text \<open>
  The entry \<open>ticket_data\<close> that \<open>generate_html_report\<close> keeps for a ticket. The
  detail values are the optional keys \<open>source\<close> to \<open>action\<close>.
\<close>

record ticket_data =
  td_business_key :: json
  td_ticket_url :: string
  td_created_date :: json
  td_created_by :: json
  td_completed_date :: json
  td_assignee_completed :: json
  td_status :: json
  td_device_name :: json
  td_device_url :: string
  td_policy_name :: json
  td_rule_number :: json
  td_rule_url :: string
  td_rule_name :: json
  td_details :: "(string \<times> json) list"
  td_props :: json

text \<open>
  A value inside an f-string: a string stands for itself, \<open>fmt\<close> gives the text of any
  other value.
\<close>

definition py_format :: "(json \<Rightarrow> string) \<Rightarrow> json \<Rightarrow> string" where
  "py_format fmt v = (case v of JStr s \<Rightarrow> s | _ \<Rightarrow> fmt v)"

text \<open>The summary figures: \<open>sum(1 for t in tickets if t.get('status') == s)\<close>.\<close>

definition count_status :: "string \<Rightarrow> json list \<Rightarrow> exn + nat" where
  "count_status s tickets =
     bindE (map_exn (\<lambda>t. py_get t ''status'' JNull) tickets)
       (\<lambda>sts. Inr (length (filter (\<lambda>v. v = JStr s) sts)))"

text \<open>
  The body of the \<open>try\<close> of the scan, in three parts: \<open>html_base\<close> projects the
  ticket (and keeps the three identifiers of its rule), \<open>html_enrich\<close> stores what a
  rule record gives, and \<open>html_ticket_data\<close> issues the lookup between the two. The
  requests made are kept also when an exception follows them.
\<close>

definition html_base ::
  "(string \<Rightarrow> string option) \<Rightarrow> (json \<Rightarrow> string) \<Rightarrow> string \<Rightarrow> json
     \<Rightarrow> exn + ticket_data \<times> json \<times> json \<times> json" where
  "html_base fmt_date fmt base_url ticket =
     bindE (py_get ticket ''businessKey'' NA) (\<lambda>business_key.
     bindE (py_get ticket ''id'' (JStr [])) (\<lambda>ticket_id.
     bindE (py_get ticket ''createdDate'' NA) (\<lambda>created.
     bindE (py_get ticket ''completed'' NA) (\<lambda>completed.
     bindE (py_get ticket ''status'' NA) (\<lambda>status.
     bindE (format_date fmt_date created) (\<lambda>created_date.
     bindE (format_date fmt_date completed) (\<lambda>completed_date.
     bindE (py_get ticket ''variables'' (JObj [])) (\<lambda>variables.
     bindE (py_get variables ''deviceName'' NA) (\<lambda>device_name.
     bindE (py_get variables ''deviceId'' NA) (\<lambda>device_id.
     bindE (py_get variables ''policyName'' NA) (\<lambda>policy_name0.
     bindE (py_get variables ''policyDisplayName'' policy_name0) (\<lambda>policy_name.
     bindE (py_get variables ''ruleNumber'' NA) (\<lambda>rule_number.
     bindE (py_get variables ''ruleGuid'' (JStr [])) (\<lambda>rule_guid.
     bindE (py_get variables ''policyGuid'' (JStr [])) (\<lambda>policy_guid.
     bindE (py_get ticket ''workflowVersion'' (JObj [])) (\<lambda>workflow_version.
     bindE (if truthy workflow_version then py_get workflow_version ''workflow'' (JObj [])
            else Inr (JObj [])) (\<lambda>workflow.
     bindE (py_get workflow ''id'' (JNum 2)) (\<lambda>workflow_id.
     bindE (assignee_completed_of ticket status) (\<lambda>assignee_completed.
     bindE (created_by_name_of ticket) (\<lambda>created_by_name.
       Inr (\<lparr>td_business_key = business_key,
             td_ticket_url = base_url @ ''/policyoptimizer/#/domain/1/workflow/''
               @ py_format fmt workflow_id @ ''/review/'' @ py_format fmt ticket_id @ ''/view'',
             td_created_date = created_date,
             td_created_by = created_by_name,
             td_completed_date = (if completed_date \<noteq> NA then completed_date else JStr []),
             td_assignee_completed = assignee_completed,
             td_status = status,
             td_device_name = device_name,
             td_device_url =
               (if device_id \<noteq> NA then
                  base_url @ ''/securitymanager/#/domain/1/device/'' @ py_format fmt device_id
                    @ ''/dashboard''
                else ''#''),
             td_policy_name = policy_name,
             td_rule_number = rule_number,
             td_rule_url =
               (if truthy rule_guid \<and> truthy policy_guid \<and> device_id \<noteq> NA then
                  base_url @ ''/securitymanager/#/domain/1/device/'' @ py_format fmt device_id
                    @ ''/policy/'' @ py_format fmt policy_guid @ ''/rule/'' @ py_format fmt rule_guid
                    @ ''/dashboard?usageDays=30''
                else ''#''),
             td_rule_name = NA,
             td_details = [],
             td_props = JObj []\<rparr>,
            device_id, policy_guid, rule_guid)))))))))))))))))))))"

definition html_enrich ::
  "bool \<Rightarrow> bool \<Rightarrow> string list \<Rightarrow> ticket_data \<Rightarrow> json \<Rightarrow> exn + ticket_data \<times> string list" where
  "html_enrich include_rule_details include_rule_docs rule_detail_fields td rule_details =
     bindE (py_get rule_details ''ruleName'' NA) (\<lambda>rule_name.
     bindE (if include_rule_details then rule_detail_values rule_detail_fields rule_details
            else Inr []) (\<lambda>details.
     if include_rule_docs then
       bindE (py_get rule_details ''props'' (JObj [])) (\<lambda>props.
       bindE (py_keys props) (\<lambda>ks.
         Inr (td\<lparr>td_rule_name := rule_name, td_details := details, td_props := props\<rparr>, ks)))
     else Inr (td\<lparr>td_rule_name := rule_name, td_details := details\<rparr>, [])))"

definition html_ticket_data ::
  "(json \<Rightarrow> json \<Rightarrow> json \<Rightarrow> http_result) \<Rightarrow> (string \<Rightarrow> string option) \<Rightarrow> (json \<Rightarrow> string) \<Rightarrow> string
     \<Rightarrow> bool \<Rightarrow> bool \<Rightarrow> string list \<Rightarrow> json \<Rightarrow> event list \<times> (exn + ticket_data \<times> string list)" where
  "html_ticket_data http fmt_date fmt base_url include_rule_details include_rule_docs rule_detail_fields ticket =
     (case html_base fmt_date fmt base_url ticket of
        Inl e \<Rightarrow> ([], Inl e)
      | Inr (td, device_id, policy_guid, rule_guid) \<Rightarrow>
          if (include_rule_details \<or> include_rule_docs) \<and> truthy rule_guid \<and> truthy policy_guid
             \<and> device_id \<noteq> NA then
            (case get_rule_details http device_id policy_guid rule_guid of
               (evs, rule_details) \<Rightarrow>
                 if truthy rule_details then
                   (evs, html_enrich include_rule_details include_rule_docs rule_detail_fields td rule_details)
                 else (evs, Inr (td, [])))
          else ([], Inr (td, [])))"

text \<open>The scan: a ticket whose projection raises is logged and left out.\<close>

fun html_scan ::
  "(json \<Rightarrow> json \<Rightarrow> json \<Rightarrow> http_result) \<Rightarrow> (string \<Rightarrow> string option) \<Rightarrow> (json \<Rightarrow> string) \<Rightarrow> string
     \<Rightarrow> bool \<Rightarrow> bool \<Rightarrow> string list \<Rightarrow> json list \<Rightarrow> event list \<times> ticket_data list \<times> string list" where
  "html_scan http fmt_date fmt base_url include_rule_details include_rule_docs rule_detail_fields [] =
     ([], [], [])"
| "html_scan http fmt_date fmt base_url include_rule_details include_rule_docs rule_detail_fields (ticket # rest) =
     (case html_ticket_data http fmt_date fmt base_url include_rule_details include_rule_docs
             rule_detail_fields ticket of
        (evs, r) \<Rightarrow>
          (case html_scan http fmt_date fmt base_url include_rule_details include_rule_docs
                  rule_detail_fields rest of
             (evs', tickets_data, all_prop_fields) \<Rightarrow>
               (case r of
                  Inl e \<Rightarrow> (evs @ [Log_error (Html_row_error e)] @ evs', tickets_data, all_prop_fields)
                | Inr x \<Rightarrow> (evs @ evs', fst x # tickets_data, snd x @ all_prop_fields))))"

text \<open>
  A documentation cell: the hover title carries the value, the visible text is cut after
  100 characters when the value is a string.
\<close>

definition doc_cell :: "(json \<Rightarrow> string) \<Rightarrow> json \<Rightarrow> string \<Rightarrow> exn + cell" where
  "doc_cell fmt props field =
     bindE (py_get props field NA) (\<lambda>v.
       Inr (Doc_cell (py_format fmt v)
              (case v of
                 JStr s \<Rightarrow> if length s > 100 then take 100 s @ ''...'' else s
               | _ \<Rightarrow> fmt v)))"

text \<open>
  One table row. \<open>ticket['status'].lower()\<close> is outside any \<open>try\<close> and raises for a
  status that is no string.
\<close>

definition html_table_row ::
  "(json \<Rightarrow> string) \<Rightarrow> bool \<Rightarrow> bool \<Rightarrow> string list \<Rightarrow> string list \<Rightarrow> ticket_data \<Rightarrow> exn + html_row" where
  "html_table_row fmt include_rule_details include_rule_docs rule_detail_fields cols td =
     bindE (case td_status td of JStr s \<Rightarrow> Inr (''status-'' @ lower s) | _ \<Rightarrow> Inl AttributeError)
       (\<lambda>status_class.
     bindE (if include_rule_docs then map_exn (doc_cell fmt (td_props td)) cols else Inr []) (\<lambda>docs.
       Inr \<lparr>base_cells =
              [Link (td_ticket_url td) (py_format fmt (td_business_key td)),
               Text (py_format fmt (td_created_date td)),
               Text (py_format fmt (td_created_by td)),
               Text (py_format fmt (td_completed_date td)),
               Text (py_format fmt (td_assignee_completed td)),
               Status_badge status_class (py_format fmt (td_status td)),
               Link (td_device_url td) (py_format fmt (td_device_name td)),
               Text (py_format fmt (td_policy_name td)),
               Text (py_format fmt (td_rule_number td)),
               Link (td_rule_url td) (py_format fmt (td_rule_name td))],
            detail_cells =
              (if include_rule_details then
                 map (\<lambda>f. Text (py_format fmt (case map_of (td_details td) f of Some v \<Rightarrow> v | None \<Rightarrow> NA)))
                   rule_detail_fields
               else []),
            doc_cells = docs\<rparr>))"

definition generate_html_report ::
  "(json \<Rightarrow> json \<Rightarrow> json \<Rightarrow> http_result) \<Rightarrow> (string \<Rightarrow> string option) \<Rightarrow> (json \<Rightarrow> string) \<Rightarrow> string
     \<Rightarrow> json list \<Rightarrow> string \<Rightarrow> bool \<Rightarrow> bool \<Rightarrow> string list option \<Rightarrow> string list option
     \<Rightarrow> (nat \<times> string list) run" where
  "generate_html_report http fmt_date fmt base_url tickets output_html include_rule_details
       include_rule_docs rule_detail_fields rule_doc_fields =
     bindR (liftE (count_status ''Review'' tickets)) (\<lambda>n_review.
     bindR (liftE (count_status ''Completed'' tickets)) (\<lambda>n_completed.
     bindR (liftE (count_status ''Cancelled'' tickets)) (\<lambda>n_cancelled.
       let detail_fields = select_detail_fields rule_detail_fields in
       (case html_scan http fmt_date fmt base_url include_rule_details include_rule_docs detail_fields tickets of
          (evs, tickets_data, all_prop_fields) \<Rightarrow>
            let cols = sorted_prop_fields include_rule_docs rule_doc_fields all_prop_fields in
            bindR (evs, Return ()) (\<lambda>u.
            bindR (liftE (map_exn (html_table_row fmt include_rule_details include_rule_docs detail_fields cols)
                            tickets_data)) (\<lambda>trs.
              ([Write_html output_html
                  \<lparr>total_count = length tickets,
                   review_count = n_review,
                   completed_count = n_completed,
                   cancelled_count = n_cancelled,
                   detail_headers = (if include_rule_details then map title detail_fields else []),
                   doc_headers =
                     (if include_rule_docs \<and> cols \<noteq> [] then
                        map (\<lambda>f. (''Rule Doc: '' @ f, header_name f)) cols
                      else []),
                   table_rows = trs\<rparr>],
               Return (length tickets_data, sort (remdups all_prop_fields)))))))))"

section \<open>Delivery\<close>

text \<open>
  \<open>send_email_report\<close>. Without an SMTP server every recipient gets a message through
  the local \<open>sendmail\<close>: \<open>sendmail r\<close> is the return code of the process, or the
  exception raised on the way; a return code other than 0 is printed, an exception is
  logged and ends the loop. With a server, \<open>smtp\<close> is the exception raised during the
  session, if any. The function returns whether the mail went out.
\<close>

fun local_mail :: "(string \<Rightarrow> exn + int) \<Rightarrow> string list \<Rightarrow> event list \<times> bool" where
  "local_mail sendmail [] = ([], True)"
| "local_mail sendmail (recipient # rest) =
     (case sendmail recipient of
        Inl e \<Rightarrow> ([Log_error (Local_mail_failed e)], False)
      | Inr returncode \<Rightarrow>
          (case local_mail sendmail rest of
             (evs, ok) \<Rightarrow>
               ((if returncode = 0 then Mail_sent [recipient] else Mail_refused recipient) # evs, ok)))"

definition send_email_report ::
  "(string \<Rightarrow> exn + int) \<Rightarrow> exn option \<Rightarrow> string option \<Rightarrow> string list \<Rightarrow> event list \<times> bool" where
  "send_email_report sendmail smtp smtp_server recipients =
     (if smtp_server = None \<or> smtp_server = Some [] then local_mail sendmail recipients
      else
        (case smtp of
           Some e \<Rightarrow> ([Log_error (Email_failed e)], False)
         | None \<Rightarrow> ([Mail_sent recipients], True)))"

section \<open>The run\<close>

text \<open>
  The options of a run, after the command line, the configuration file and the prompts
  have been merged, and what the run meets outside: the answers of the server, the two
  formatting functions of the Python library, whether the reports directory exists, the
  time stamp and the mail transport.
\<close>

record options =
  workflow_id :: int
  status_filter :: "string option"
  days_filter :: "int option"
  generate_csv :: bool
  generate_html :: bool
  include_rule_details :: bool
  include_rule_docs :: bool
  rule_detail_fields :: "string list option"
  rule_doc_fields :: "string list option"
  generate_config :: bool
  send_email :: bool
  email_recipients :: "string list"
  smtp_server :: "string option"

record world =
  login :: http_result
  quote :: "string \<Rightarrow> string"
  ticket_search :: "string \<Rightarrow> nat \<Rightarrow> nat \<Rightarrow> http_result"
  rule_search :: "json \<Rightarrow> json \<Rightarrow> json \<Rightarrow> http_result"
  fmt_date :: "string \<Rightarrow> string option"
  fmt :: "json \<Rightarrow> string"
  base_url :: string
  reports_dir_exists :: bool
  timestamp :: string
  sendmail :: "string \<Rightarrow> exn + int"
  smtp :: "exn option"

definition reports_dir :: string where
  "reports_dir = ''po_reports''"

fun join_str :: "string \<Rightarrow> string list \<Rightarrow> string" where
  "join_str sep [] = []"
| "join_str sep [x] = x"
| "join_str sep (x # y # ys) = x @ sep @ join_str sep (y # ys)"

definition base_filename :: "options \<Rightarrow> string \<Rightarrow> string" where
  "base_filename opts stamp =
     join_str ''_''
       ([''po_tickets'', ''wf'' @ str_int (workflow_id opts)]
        @ (case status_filter opts of
             None \<Rightarrow> []
           | Some s \<Rightarrow> if s \<noteq> [] \<and> s \<noteq> ''all'' then [lower s] else [])
        @ (case days_given (days_filter opts) of None \<Rightarrow> [] | Some d \<Rightarrow> [str_int d @ ''days''])
        @ [stamp])"

text \<open>
  The part of the main program after the tickets have been fetched: an empty result ends
  the process with status 0; otherwise the directory is created when it is missing, the
  chosen reports are written, the configuration is saved on request, the mail is sent when
  asked for and something was written, and the summary is printed.
\<close>

definition make_reports :: "world \<Rightarrow> options \<Rightarrow> json list \<Rightarrow> unit run" where
  "make_reports w opts tickets =
     (if tickets = [] then ([], Exit 0)
      else
        bindR ((if reports_dir_exists w then [] else [Make_dirs reports_dir]), Return ()) (\<lambda>u.
        let name = reports_dir @ ''/'' @ base_filename opts (timestamp w) in
        bindR (if generate_csv opts then
                 bindR (process_tickets_to_csv (rule_search w) (fmt_date w) tickets (name @ ''.csv'')
                          (include_rule_details opts) (include_rule_docs opts)
                          (rule_detail_fields opts) (rule_doc_fields opts))
                   (\<lambda>n. ([], Return [name @ ''.csv'']))
               else ([], Return [])) (\<lambda>csv_files.
        bindR (if generate_html opts then
                 bindR (generate_html_report (rule_search w) (fmt_date w) (fmt w) (base_url w) tickets
                          (name @ ''.html'') (include_rule_details opts) (include_rule_docs opts)
                          (rule_detail_fields opts) (rule_doc_fields opts))
                   (\<lambda>n. ([], Return [name @ ''.html'']))
               else ([], Return [])) (\<lambda>html_files.
        bindR ((if generate_config opts then [Save_config] else []), Return ()) (\<lambda>u.
        bindR (if send_email opts \<and> csv_files @ html_files \<noteq> [] then
                 (fst (send_email_report (sendmail w) (smtp w) (smtp_server opts) (email_recipients opts)),
                  Return ())
               else ([], Return ())) (\<lambda>u.
        bindR (liftE (count_status ''Review'' tickets)) (\<lambda>n_review.
        bindR (liftE (count_status ''Completed'' tickets)) (\<lambda>n_completed.
        bindR (liftE (count_status ''Cancelled'' tickets)) (\<lambda>n_cancelled.
          ([Summary (length tickets) n_review n_completed n_cancelled], Return ()))))))))))"

text \<open>The run from the login on. \<open>None\<close>: the fetch loop never ends.\<close>

definition run_report :: "world \<Rightarrow> options \<Rightarrow> unit run option" where
  "run_report w opts =
     (case authenticate (login w) of
        (evs, Return token) \<Rightarrow>
          (case get_po_tickets (quote w) (ticket_search w) (workflow_id opts) (status_filter opts)
                  (days_filter opts) of
             None \<Rightarrow> None
           | Some fetched \<Rightarrow> Some (bindR (evs, Return ()) (\<lambda>u. bindR fetched (make_reports w opts))))
      | (evs, Exit c) \<Rightarrow> Some (evs, Exit c)
      | (evs, Raise e) \<Rightarrow> Some (evs, Raise e))"

section \<open>Example data\<close>

text \<open>
  Three tickets and a rule record, used to run the definitions: a ticket under review, a
  completed one, and one in a status outside the three known ones. None of them names a
  rule.
\<close>

definition review_ticket :: json where
  "review_ticket =
     JObj [(''businessKey'', JStr ''PO-1''),
           (''status'', JStr ''Review''),
           (''assignee'', JObj [(''displayName'', JStr ''Alice''), (''username'', JStr ''alice'')]),
           (''completedBy'', JObj [(''displayName'', JStr ''Bob'')])]"

definition completed_ticket :: json where
  "completed_ticket =
     JObj [(''businessKey'', JStr ''PO-2''),
           (''status'', JStr ''Completed''),
           (''assignee'', JObj [(''displayName'', JStr ''Alice'')]),
           (''completedBy'', JObj [(''username'', JStr ''bob'')])]"

definition draft_ticket :: json where
  "draft_ticket =
     JObj [(''businessKey'', JStr ''PO-3''),
           (''status'', JStr ''Draft''),
           (''assignee'', JObj [(''displayName'', JStr ''Alice'')]),
           (''completedBy'', JObj [(''displayName'', JStr ''Bob'')])]"

section \<open>Kinds of events\<close>

text \<open>What a scan can cause: rule lookups and logged errors.\<close>

definition lookup_or_log :: "event \<Rightarrow> bool" where
  "lookup_or_log e = (case e of Log_error m \<Rightarrow> True | Rule_lookup d p r \<Rightarrow> True | _ \<Rightarrow> False)"

text \<open>What touches the reports on disk: the directory and the two files.\<close>

definition writes_report :: "event \<Rightarrow> bool" where
  "writes_report e =
     (case e of Make_dirs d \<Rightarrow> True | Write_csv f h ls \<Rightarrow> True | Write_html f d \<Rightarrow> True | _ \<Rightarrow> False)"

definition is_log_error :: "event \<Rightarrow> bool" where
  "is_log_error e = (case e of Log_error m \<Rightarrow> True | _ \<Rightarrow> False)"

text \<open>
  A ticket that names its rule, the record of that rule, and two servers: one that finds
  the rule and one whose rule search fails.
\<close>

definition long_value :: string where
  "long_value = replicate 101 CHR ''x''"

definition documented_rule :: json where
  "documented_rule =
     JObj [(''ruleName'', JStr ''allow-web''),
           (''sources'', JArr [JObj [(''displayName'', JStr ''net-a'')],
                               JObj [(''displayName'', JStr ''net-b'')]]),
           (''apps'', JArr [JObj [(''displayName'', JStr ''Any'')]]),
           (''props'', JObj [(''owner'', JStr long_value), (''approver'', JStr ''carol'')])]"

definition plain_rule :: json where
  "plain_rule = JObj [(''ruleName'', JStr ''allow-dns'')]"

definition rule_ticket :: json where
  "rule_ticket =
     JObj [(''businessKey'', JStr ''PO-4''),
           (''status'', JStr ''Review''),
           (''variables'',
            JObj [(''deviceId'', JNum 7), (''policyGuid'', JStr ''p-1''), (''ruleGuid'', JStr ''r-1'')])]"

definition rule_server :: "json \<Rightarrow> json \<Rightarrow> json \<Rightarrow> http_result" where
  "rule_server d p r = Response 200 (Some (JObj [(''results'', JArr [documented_rule])]))"


text \<open>
  Ticket searches: one that finds nothing, one that answers with a full page of 100
  tickets and then a page of one, and one whose second page is an HTTP error. A world and
  the options of a run complete the data.
\<close>

definition empty_search :: "string \<Rightarrow> nat \<Rightarrow> nat \<Rightarrow> http_result" where
  "empty_search q p n = Response 200 (Some (JObj [(''results'', JArr [])]))"

definition two_pages :: "nat \<Rightarrow> json list" where
  "two_pages p = (if p = 0 then replicate 100 review_ticket else [draft_ticket])"

definition two_page_search :: "string \<Rightarrow> nat \<Rightarrow> nat \<Rightarrow> http_result" where
  "two_page_search q p n = Response 200 (Some (JObj [(''results'', JArr (two_pages p))]))"

definition broken_search :: "string \<Rightarrow> nat \<Rightarrow> nat \<Rightarrow> http_result" where
  "broken_search q p n =
     (if p = 0 then Response 200 (Some (JObj [(''results'', JArr (two_pages 0))]))
      else Response 503 None)"

definition example_world :: world where
  "example_world =
     \<lparr>login = Response 200 (Some (JObj [(''token'', JStr ''tok'')])),
      quote = (\<lambda>s. s),
      ticket_search = empty_search,
      rule_search = rule_server,
      fmt_date = Some,
      fmt = (\<lambda>v. []),
      base_url = ''https://fm'',
      reports_dir_exists = False,
      timestamp = ''20250101_000000'',
      sendmail = (\<lambda>r. Inr 0),
      smtp = None\<rparr>"

definition example_options :: options where
  "example_options =
     \<lparr>workflow_id = 2,
      status_filter = Some ''all'',
      days_filter = None,
      generate_csv = True,
      generate_html = True,
      include_rule_details = True,
      include_rule_docs = True,
      rule_detail_fields = None,
      rule_doc_fields = None,
      generate_config = False,
      send_email = True,
      email_recipients = [''ops@example.com''],
      smtp_server = None\<rparr>"





section \<open>Auxiliary facts\<close>

lemma bindE_Inr [simp]: "bindE (Inr v) f = f v"
  by (simp add: bindE_def)

lemma bindE_Inl [simp]: "bindE (Inl e) f = Inl e"
  by (simp add: bindE_def)

lemma bindE_eq_Inr: "bindE m f = Inr r \<longleftrightarrow> (\<exists>v. m = Inr v \<and> f v = Inr r)"
  by (cases m) simp_all

lemma map_exn_keys:
  "map_exn (\<lambda>f. bindE (g f) (\<lambda>v. Inr (h f, v))) xs = Inr kvs \<Longrightarrow> map fst kvs = map h xs"
proof (induction xs arbitrary: kvs)
  case Nil
  then show ?case by simp
next
  case (Cons x xs)
  then show ?case by (auto simp: bindE_eq_Inr)
qed

lemma title_available:
  "map title available_detail_fields = [''Source'', ''Destination'', ''Service'', ''Application'', ''Action'']"
  by (simp add: available_detail_fields_def title_def lower_letters_def upper_letters_def to_upper_def to_lower_def)

lemma select_detail_fields_subset:
  "set (select_detail_fields rdf) \<subseteq> set available_detail_fields"
  by (auto simp: select_detail_fields_def split: option.splits)

lemma csv_details_keys:
  assumes "csv_details ird fs rd = Inr details" and "set fs \<subseteq> set available_detail_fields"
  shows "fst ` set details \<subseteq> title ` set available_detail_fields"
proof (cases "ird \<and> truthy rd")
  case True
  then obtain kvs where kvs: "rule_detail_values fs rd = Inr kvs"
    and d: "details = map (\<lambda>kv. (title (fst kv), snd kv)) kvs"
    using assms(1) by (auto simp: csv_details_def bindE_eq_Inr)
  have "map fst kvs = filter (\<lambda>f. f \<in> set fs) available_detail_fields"
    using kvs map_exn_keys[of "\<lambda>f. detail_value f rd" "\<lambda>f. f" _ kvs]
    by (simp add: rule_detail_values_def)
  then have "fst ` set kvs \<subseteq> set available_detail_fields"
    by (metis filter_is_subset list.set_map)
  then show ?thesis unfolding d by force
next
  case False
  then have "details = [] \<or> details = map (\<lambda>f. (title f, NA)) fs"
    using assms(1) by (auto simp: csv_details_def split: if_splits)
  then show ?thesis using assms(2) by (elim disjE) (simp, force)
qed

lemma csv_docs_keys:
  assumes "csv_docs irdoc cols rd = Inr docs"
  shows "fst ` set docs \<subseteq> doc_header ` set cols"
proof (cases "irdoc \<and> cols \<noteq> [] \<and> truthy rd")
  case True
  then obtain props where "map_exn (\<lambda>f. bindE (py_get props f NA) (\<lambda>v. Inr (doc_header f, v))) cols = Inr docs"
    using assms by (auto simp: csv_docs_def bindE_eq_Inr)
  then have "map fst docs = map doc_header cols"
    by (rule map_exn_keys)
  then show ?thesis by (metis list.set_map order_refl)
next
  case False
  then show ?thesis using assms by (auto simp: csv_docs_def split: if_splits)
qed

lemma doc_header_not_base: "doc_header f \<notin> set base_headers"
  by (simp add: doc_header_def base_headers_def)

lemma title_not_base: "f \<in> set available_detail_fields \<Longrightarrow> title f \<notin> set base_headers"
  using title_available by (auto simp: available_detail_fields_def base_headers_def)

text \<open>A base column is read from the fixed part of the row.\<close>

lemma map_of_append_miss: "k \<notin> fst ` set xs \<Longrightarrow> map_of (xs @ ys) k = map_of ys k"
  by (induction xs) auto

lemma row_get_base:
  assumes "k \<in> set base_headers"
    and "fst ` set details \<subseteq> title ` set available_detail_fields"
    and "fst ` set docs \<subseteq> doc_header ` set cols"
  shows "row_get (base @ details @ docs) k = map_of (rev base) k"
proof -
  have d: "k \<notin> fst ` set (rev docs)" using assms(1,3) doc_header_not_base by auto
  have e: "k \<notin> fst ` set (rev details)" using assms(1,2) title_not_base by auto
  have "row_get (base @ details @ docs) k = map_of (rev docs @ rev details @ rev base) k"
    by (simp add: row_get_def)
  also have "\<dots> = map_of (rev details @ rev base) k"
    using d by (rule map_of_append_miss)
  also have "\<dots> = map_of (rev base) k"
    using e by (rule map_of_append_miss)
  finally show ?thesis .
qed

lemma csv_row_Inr:
  assumes "csv_row fd ird irdoc fs cols ticket rd = Inr row"
  obtains v1 v2 v3 st v5 v6 v7 v8 ac v10 v11 details docs where
    "py_get ticket ''status'' NA = Inr st"
    "assignee_completed_of ticket st = Inr ac"
    "csv_details ird fs rd = Inr details"
    "csv_docs irdoc cols rd = Inr docs"
    "row = [(''Ticket ID'', v1), (''Created Date'', v2), (''Completed Date'', v3), (''Status'', st),
            (''Device Name'', v5), (''Device ID'', v6), (''Policy Name'', v7), (''Rule Number'', v8),
            (''Rule Name'', NA), (''Assignee/Completed By'', ac), (''Created By'', v10),
            (''Rule Name'', v11)] @ details @ docs"
  using assms by (auto simp: csv_row_def bindE_eq_Inr)

lemma csv_row_base_columns:
  assumes "csv_row fd ird irdoc fs cols ticket rd = Inr row"
    and "set fs \<subseteq> set available_detail_fields"
  obtains st ac where
    "py_get ticket ''status'' NA = Inr st"
    "assignee_completed_of ticket st = Inr ac"
    "row_get row ''Status'' = Some st"
    "row_get row ''Assignee/Completed By'' = Some ac"
proof -
  from assms(1) obtain v1 v2 v3 st v5 v6 v7 v8 ac v10 v11 details docs where
    st: "py_get ticket ''status'' NA = Inr st"
    and ac: "assignee_completed_of ticket st = Inr ac"
    and de: "csv_details ird fs rd = Inr details"
    and dc: "csv_docs irdoc cols rd = Inr docs"
    and row: "row = [(''Ticket ID'', v1), (''Created Date'', v2), (''Completed Date'', v3), (''Status'', st),
            (''Device Name'', v5), (''Device ID'', v6), (''Policy Name'', v7), (''Rule Number'', v8),
            (''Rule Name'', NA), (''Assignee/Completed By'', ac), (''Created By'', v10),
            (''Rule Name'', v11)] @ details @ docs"
    by (rule csv_row_Inr)
  note k1 = csv_details_keys[OF de assms(2)] and k2 = csv_docs_keys[OF dc]
  have "row_get row ''Status'' = Some st"
    unfolding row by (subst row_get_base[OF _ k1 k2]) (simp_all add: base_headers_def)
  moreover have "row_get row ''Assignee/Completed By'' = Some ac"
    unfolding row by (subst row_get_base[OF _ k1 k2]) (simp_all add: base_headers_def)
  ultimately show ?thesis using st ac that by blast
qed

lemma bindE_InrE:
  assumes "bindE m f = Inr r"
  obtains v where "m = Inr v" "f v = Inr r"
  using assms by (auto simp: bindE_eq_Inr)

lemma html_base_Inr:
  assumes "html_base fd fm burl ticket = Inr (td, d, p, r)"
  obtains st ac vars where
    "py_get ticket ''status'' NA = Inr st"
    "assignee_completed_of ticket st = Inr ac"
    "py_get ticket ''variables'' (JObj []) = Inr vars"
    "py_get vars ''deviceId'' NA = Inr d"
    "py_get vars ''policyGuid'' (JStr []) = Inr p"
    "py_get vars ''ruleGuid'' (JStr []) = Inr r"
    "td_status td = st" "td_assignee_completed td = ac"
    "td_details td = []" "td_props td = JObj []"
  using assms unfolding html_base_def
  apply (elim bindE_InrE)
  apply (simp only: sum.inject prod.inject)
  apply (elim conjE)
  apply (drule sym[of _ td])
  apply simp
  done


lemma html_enrich_Inr:
  assumes "html_enrich ird irdoc fs td rd = Inr (td', ks)"
  shows "td_status td' = td_status td \<and> td_assignee_completed td' = td_assignee_completed td"
proof (cases irdoc)
  case True
  with assms show ?thesis unfolding html_enrich_def
    by (elim bindE_InrE) (simp, elim bindE_InrE, auto)
next
  case False
  with assms show ?thesis unfolding html_enrich_def
    by (elim bindE_InrE) auto
qed

lemma html_ticket_data_cases:
  assumes "html_ticket_data http fd fm burl ird irdoc fs ticket = (evs, Inr (td, ks))"
  obtains td0 d p r where "html_base fd fm burl ticket = Inr (td0, d, p, r)"
    and "(td = td0 \<and> ks = [] \<and> td_details td = [] \<and> td_props td = JObj [])
         \<or> ((ird \<or> irdoc) \<and> truthy r \<and> truthy p \<and> d \<noteq> NA
             \<and> (\<exists>rd. truthy rd \<and> html_enrich ird irdoc fs td0 rd = Inr (td, ks)))"
proof (cases "html_base fd fm burl ticket")
  case (Inl e)
  with assms show ?thesis by (simp add: html_ticket_data_def)
next
  case (Inr x)
  obtain td0 d p r where x: "x = (td0, d, p, r)" by (cases x) auto
  note b = Inr[unfolded x]
  have z: "td_details td0 = [] \<and> td_props td0 = JObj []"
    using b by (elim html_base_Inr) simp
  show ?thesis
  proof (rule that[OF b])
    show "(td = td0 \<and> ks = [] \<and> td_details td = [] \<and> td_props td = JObj [])
         \<or> ((ird \<or> irdoc) \<and> truthy r \<and> truthy p \<and> d \<noteq> NA
             \<and> (\<exists>rd. truthy rd \<and> html_enrich ird irdoc fs td0 rd = Inr (td, ks)))"
      using assms z unfolding html_ticket_data_def b
      by (auto split: if_splits prod.splits)
  qed
qed

lemma html_ticket_data_Inr:
  assumes "html_ticket_data http fd fm burl ird irdoc fs ticket = (evs, Inr (td, ks))"
  obtains st ac where
    "py_get ticket ''status'' NA = Inr st"
    "assignee_completed_of ticket st = Inr ac"
    "td_status td = st" "td_assignee_completed td = ac"
proof -
  from assms obtain td0 d p r where b: "html_base fd fm burl ticket = Inr (td0, d, p, r)"
    and c: "(td = td0 \<and> ks = [] \<and> td_details td = [] \<and> td_props td = JObj [])
         \<or> ((ird \<or> irdoc) \<and> truthy r \<and> truthy p \<and> d \<noteq> NA
             \<and> (\<exists>rd. truthy rd \<and> html_enrich ird irdoc fs td0 rd = Inr (td, ks)))"
    by (rule html_ticket_data_cases)
  from c have "td_status td = td_status td0 \<and> td_assignee_completed td = td_assignee_completed td0"
    using html_enrich_Inr by blast
  with b show ?thesis using that by (elim html_base_Inr) simp
qed

lemma person_name_obj:
  "person_name (JObj p) =
     Inr (case map_of p ''displayName'' of Some d \<Rightarrow> d
          | None \<Rightarrow> (case map_of p ''username'' of Some u \<Rightarrow> u | None \<Rightarrow> NA))"
  by (simp add: person_name_def split: option.splits)

lemma html_table_row_base:
  assumes "html_table_row fm ird irdoc fs cols td = Inr r"
  shows "base_cells r ! 4 = Text (py_format fm (td_assignee_completed td))"
  using assms unfolding html_table_row_def
  by (elim bindE_InrE) auto

lemma assignee_completed_of_person:
  assumes "(s = ''Review'' \<and> map_of t ''assignee'' = Some (JObj p))
         \<or> ((s = ''Completed'' \<or> s = ''Cancelled'') \<and> map_of t ''completedBy'' = Some (JObj p))"
    and "p \<noteq> []"
  shows "assignee_completed_of (JObj t) (JStr s) = person_name (JObj p)"
  using assms unfolding assignee_completed_of_def
  by (elim disjE conjE) simp_all

text \<open>The definitions unfolded to run a projection on a concrete ticket.\<close>

lemmas eval_row =
  csv_row_def format_date_def NA_def assignee_completed_of_def person_name_def
  created_by_name_of_def csv_details_def csv_docs_def row_get_def

lemmas eval_html =
  html_ticket_data_def html_base_def format_date_def NA_def assignee_completed_of_def
  person_name_def created_by_name_of_def py_format_def

lemma bindR_Return [simp]: "bindR (evs, Return v) f = (evs @ fst (f v), snd (f v))"
  by (simp add: bindR_def split: prod.splits)

lemma bindR_Exit [simp]: "bindR (evs, Exit c) f = (evs, Exit c)"
  by (simp add: bindR_def)

lemma bindR_Raise [simp]: "bindR (evs, Raise e) f = (evs, Raise e)"
  by (simp add: bindR_def)

lemma liftE_Inr [simp]: "liftE (Inr v) = ([], Return v)"
  by (simp add: liftE_def)

lemma liftE_Inl [simp]: "liftE (Inl e) = ([], Raise e)"
  by (simp add: liftE_def)

lemma get_rule_details_events:
  "fst (get_rule_details http d p r) = [Rule_lookup d p r]"
  by (simp add: get_rule_details_def)

lemma html_ticket_data_events:
  "\<forall>e \<in> set (fst (html_ticket_data http fd fm burl ird irdoc fs ticket)). lookup_or_log e"
proof (cases "html_base fd fm burl ticket")
  case (Inl e)
  then show ?thesis by (simp add: html_ticket_data_def)
next
  case (Inr x)
  obtain td d p r where x: "x = (td, d, p, r)" by (cases x) auto
  obtain evs rd where g: "get_rule_details http d p r = (evs, rd)" by (cases "get_rule_details http d p r")
  then have "evs = [Rule_lookup d p r]" using get_rule_details_events[of http d p r] by simp
  then show ?thesis
    unfolding html_ticket_data_def Inr x by (simp add: g lookup_or_log_def)
qed

lemma html_scan_events:
  "\<forall>e \<in> set (fst (html_scan http fd fm burl ird irdoc fs tickets)). lookup_or_log e"
proof (induction tickets)
  case Nil
  then show ?case by simp
next
  case (Cons t ts)
  obtain evs r where a: "html_ticket_data http fd fm burl ird irdoc fs t = (evs, r)"
    by (cases "html_ticket_data http fd fm burl ird irdoc fs t")
  obtain evs' tds al where b: "html_scan http fd fm burl ird irdoc fs ts = (evs', tds, al)"
    by (cases "html_scan http fd fm burl ird irdoc fs ts") auto
  have "\<forall>e \<in> set evs. lookup_or_log e" using html_ticket_data_events[of http fd fm burl ird irdoc fs t] a by simp
  moreover have "\<forall>e \<in> set evs'. lookup_or_log e" using Cons b by simp
  ultimately show ?case
    by (cases r) (auto simp: a b lookup_or_log_def)
qed

lemma generate_html_report_shape:
  obtains (stopped) evs r where
      "generate_html_report http fd fm burl tickets out ird irdoc rdf rdocf = (evs, r)"
      "\<forall>e \<in> set evs. lookup_or_log e" "\<forall>v. r \<noteq> Return v"
  | (written) evs doc n where
      "generate_html_report http fd fm burl tickets out ird irdoc rdf rdocf
         = (evs @ [Write_html out doc], Return n)"
      "\<forall>e \<in> set evs. lookup_or_log e"
      "total_count doc = length tickets"
      "count_status ''Review'' tickets = Inr (review_count doc)"
      "count_status ''Completed'' tickets = Inr (completed_count doc)"
      "count_status ''Cancelled'' tickets = Inr (cancelled_count doc)"
proof -
  obtain evs tds al where sc:
    "html_scan http fd fm burl ird irdoc (select_detail_fields rdf) tickets = (evs, tds, al)"
    by (cases "html_scan http fd fm burl ird irdoc (select_detail_fields rdf) tickets") auto
  have no: "\<forall>e \<in> set evs. lookup_or_log e"
    using html_scan_events[of http fd fm burl ird irdoc "select_detail_fields rdf" tickets] sc
    by simp
  show ?thesis
  proof (cases "count_status ''Review'' tickets")
    case (Inl e)
    show ?thesis by (rule stopped[of "[]" "Raise e"]) (simp_all add: generate_html_report_def Inl)
  next
    case a: (Inr a)
    show ?thesis
    proof (cases "count_status ''Completed'' tickets")
      case (Inl e)
      show ?thesis by (rule stopped[of "[]" "Raise e"]) (simp_all add: generate_html_report_def a Inl)
    next
      case b: (Inr b)
      show ?thesis
      proof (cases "count_status ''Cancelled'' tickets")
        case (Inl e)
        show ?thesis by (rule stopped[of "[]" "Raise e"]) (simp_all add: generate_html_report_def a b Inl)
      next
        case c: (Inr c)
        show ?thesis
        proof (cases "map_exn (html_table_row fm ird irdoc (select_detail_fields rdf)
                        (sorted_prop_fields irdoc rdocf al)) tds")
          case (Inl e)
          show ?thesis
            by (rule stopped[of evs "Raise e"]) (simp_all add: generate_html_report_def a b c sc Let_def Inl no)
        next
          case (Inr trs)
          show ?thesis
            by (rule written[of evs _ "(length tds, sort (remdups al))"],
                simp add: generate_html_report_def a b c sc Let_def Inr)
               (simp_all add: a b c no)
        qed
      qed
    qed
  qed
qed

lemma not_lookup_or_log_write [simp]: "\<not> lookup_or_log (Write_html f doc)"
  by (simp add: lookup_or_log_def)

lemma generate_html_report_written:
  assumes "Write_html f doc \<in> set (fst (generate_html_report http fd fm burl tickets out ird irdoc rdf rdocf))"
  shows "f = out \<and> total_count doc = length tickets
       \<and> count_status ''Review'' tickets = Inr (review_count doc)
       \<and> count_status ''Completed'' tickets = Inr (completed_count doc)
       \<and> count_status ''Cancelled'' tickets = Inr (cancelled_count doc)"
proof (cases rule: generate_html_report_shape[of http fd fm burl tickets out ird irdoc rdf rdocf])
  case (stopped evs r)
  with assms show ?thesis by auto
next
  case (written evs doc' n)
  with assms have "doc = doc' \<and> f = out" by auto
  with written show ?thesis by simp
qed

lemma generate_html_report_events:
  "\<forall>e \<in> set (fst (generate_html_report http fd fm burl tickets out ird irdoc rdf rdocf)).
     lookup_or_log e \<or> (\<exists>d. e = Write_html out d)"
  by (cases rule: generate_html_report_shape[of http fd fm burl tickets out ird irdoc rdf rdocf]) auto

lemma map_exn_filter_length:
  "map_exn f xs = Inr ys \<Longrightarrow>
     length (filter P ys) = length (filter (\<lambda>x. \<exists>y. f x = Inr y \<and> P y) xs)"
proof (induction xs arbitrary: ys)
  case Nil
  then show ?case by simp
next
  case (Cons x xs)
  then obtain y ys' where "f x = Inr y" "map_exn f xs = Inr ys'" "ys = y # ys'"
    by (auto simp: bindE_eq_Inr)
  with Cons.IH[of ys'] show ?case by simp
qed

lemma count_status_eq:
  assumes "count_status s tickets = Inr n"
  shows "n = length (filter (\<lambda>t. py_get t ''status'' JNull = Inr (JStr s)) tickets)"
proof -
  from assms obtain sts where m: "map_exn (\<lambda>t. py_get t ''status'' JNull) tickets = Inr sts"
    and n: "n = length (filter (\<lambda>v. v = JStr s) sts)"
    by (auto simp: count_status_def bindE_eq_Inr)
  show ?thesis unfolding n map_exn_filter_length[OF m] by simp
qed

lemma three_filters_le:
  assumes "\<And>x. \<not> (P x \<and> Q x)" "\<And>x. \<not> (P x \<and> R x)" "\<And>x. \<not> (Q x \<and> R x)"
  shows "length (filter P xs) + length (filter Q xs) + length (filter R xs) \<le> length xs"
  using assms by (induction xs) auto

lemma three_filters_less:
  assumes "\<And>x. \<not> (P x \<and> Q x)" "\<And>x. \<not> (P x \<and> R x)" "\<And>x. \<not> (Q x \<and> R x)"
    and "z \<in> set xs" "\<not> P z" "\<not> Q z" "\<not> R z"
  shows "length (filter P xs) + length (filter Q xs) + length (filter R xs) < length xs"
  using assms(4-)
proof (induction xs)
  case Nil
  then show ?case by simp
next
  case (Cons x xs)
  note le = three_filters_le[of P Q R xs, OF assms(1-3)]
  show ?case
  proof (cases "z = x")
    case True
    with Cons.prems le show ?thesis by simp
  next
    case False
    with Cons have "length (filter P xs) + length (filter Q xs) + length (filter R xs) < length xs"
      by simp
    then show ?thesis using assms(1-3)[of x] by auto
  qed
qed

lemma status_buckets_less_gen:
  assumes "JObj t \<in> set tickets"
    and "map_of t ''status'' \<noteq> Some (JStr s1)" "map_of t ''status'' \<noteq> Some (JStr s2)"
        "map_of t ''status'' \<noteq> Some (JStr s3)"
    and "s1 \<noteq> s2" "s1 \<noteq> s3" "s2 \<noteq> s3"
    and "count_status s1 tickets = Inr a"
    and "count_status s2 tickets = Inr b"
    and "count_status s3 tickets = Inr c"
  shows "a + b + c < length tickets"
proof -
  define hasst where "hasst = (\<lambda>s t. py_get t ''status'' JNull = Inr (JStr s))"
  have z: "\<not> hasst s1 (JObj t)" "\<not> hasst s2 (JObj t)" "\<not> hasst s3 (JObj t)"
    using assms(2-4) by (cases "map_of t ''status''"; simp add: hasst_def)+
  have d: "\<And>x. \<not> (hasst s1 x \<and> hasst s2 x)" "\<And>x. \<not> (hasst s1 x \<and> hasst s3 x)" "\<And>x. \<not> (hasst s2 x \<and> hasst s3 x)"
    using assms(5-7) by (auto simp: hasst_def)
  have "length (filter (hasst s1) tickets) + length (filter (hasst s2) tickets)
          + length (filter (hasst s3) tickets) < length tickets"
    by (rule three_filters_less[of "hasst s1" "hasst s2" "hasst s3" "JObj t" tickets, OF d assms(1) z])
  then show ?thesis
    using count_status_eq[OF assms(8)] count_status_eq[OF assms(9)] count_status_eq[OF assms(10)]
    by (simp add: hasst_def)
qed

lemma status_buckets_less:
  assumes "JObj t \<in> set tickets"
    and "map_of t ''status'' \<notin> {Some (JStr ''Review''), Some (JStr ''Completed''), Some (JStr ''Cancelled'')}"
    and "count_status ''Review'' tickets = Inr a"
    and "count_status ''Completed'' tickets = Inr b"
    and "count_status ''Cancelled'' tickets = Inr c"
  shows "a + b + c < length tickets"
proof (rule status_buckets_less_gen[OF assms(1) _ _ _ _ _ _ assms(3-5)])
  show "map_of t ''status'' \<noteq> Some (JStr ''Review'')" using assms(2) by blast
  show "map_of t ''status'' \<noteq> Some (JStr ''Completed'')" using assms(2) by blast
  show "map_of t ''status'' \<noteq> Some (JStr ''Cancelled'')" using assms(2) by blast
qed simp_all

lemma assignee_completed_of_other:
  assumes "st \<notin> {JStr ''Review'', JStr ''Completed'', JStr ''Cancelled''}"
  shows "assignee_completed_of ticket st = Inr NA"
  using assms by (simp add: assignee_completed_of_def)

lemma bindR_events:
  assumes "\<forall>e \<in> set (fst m). P e" and "\<And>v. \<forall>e \<in> set (fst (f v)). P e"
  shows "\<forall>e \<in> set (fst (bindR m f)). P e"
proof (cases m)
  case (Pair evs r)
  with assms show ?thesis by (cases r) auto
qed

lemma case_prod_events:
  assumes "\<And>a b. \<forall>e \<in> set (fst (f a b)). P e"
  shows "\<forall>e \<in> set (fst (case_prod f v)). P e"
  using assms by (cases v) simp

lemma liftE_events [simp]: "fst (liftE m) = []"
  by (cases m) simp_all

lemma csv_enrich_events:
  "\<forall>e \<in> set (fst (csv_enrich http ird irdoc ticket)). lookup_or_log e"
proof (cases "ird \<or> irdoc")
  case True
  have last: "\<forall>e \<in> set (fst (if truthy rg \<and> truthy pg \<and> d \<noteq> NA then
            (case get_rule_details http d pg rg of
               (evs, rule_details) \<Rightarrow>
                 if truthy rule_details then
                   (if irdoc then
                      bindR (evs, Return ()) (\<lambda>u.
                      bindR (liftE (py_get rule_details ''props'' (JObj []))) (\<lambda>props.
                      bindR (liftE (py_keys props)) (\<lambda>ks. ([], Return (rule_details, ks)))))
                    else (evs, Return (rule_details, [])))
                 else (evs, Return (JNull, [])))
          else ([], Return (JNull, [])))). lookup_or_log e" for rg pg d
  proof -
    have "\<forall>e \<in> set (fst (bindR (liftE (py_get rd ''props'' (JObj []))) (\<lambda>props.
                      bindR (liftE (py_keys props)) (\<lambda>ks. ([], Return (rd, ks)))))). lookup_or_log e" for rd
      by (intro bindR_events allI) simp_all
    then show ?thesis
      by (simp add: get_rule_details_def lookup_or_log_def)
  qed
  show ?thesis
    unfolding csv_enrich_def if_P[OF True]
    by (intro bindR_events allI last) simp_all
next
  case False
  then show ?thesis by (simp add: csv_enrich_def)
qed

lemma csv_scan_events:
  "\<forall>e \<in> set (fst (csv_scan http ird irdoc tickets)). lookup_or_log e"
proof (induction tickets)
  case Nil
  then show ?case by simp
next
  case (Cons t ts)
  show ?case
    unfolding csv_scan.simps
    by (intro bindR_events csv_enrich_events allI Cons case_prod_events) simp_all
qed

lemma is_log_error_lookup_or_log: "is_log_error e \<Longrightarrow> lookup_or_log e"
  by (cases e) (simp_all add: is_log_error_def lookup_or_log_def)

lemma csv_rows_events:
  "\<forall>e \<in> set (fst (csv_rows fd ird irdoc fs cols hs tds)). is_log_error e"
proof (induction tds)
  case Nil
  then show ?case by simp
next
  case (Cons td tds)
  then show ?case
    by (auto simp: is_log_error_def split: sum.splits prod.splits)
qed

lemma missing_warning_events:
  "\<forall>e \<in> set (missing_warning irdoc rdocf cols). \<exists>m. e = Warn_missing m"
  unfolding missing_warning_def
  by (cases irdoc; cases rdocf; simp)

lemma process_tickets_to_csv_events:
  "\<forall>e \<in> set (fst (process_tickets_to_csv http fd tickets out ird irdoc rdf rdocf)).
     lookup_or_log e \<or> (\<exists>m. e = Warn_missing m) \<or> (\<exists>h ls. e = Write_csv out h ls)"
  unfolding process_tickets_to_csv_def
proof (rule bindR_events)
  show "\<forall>e\<in>set (fst (csv_scan http ird irdoc tickets)).
       lookup_or_log e \<or> (\<exists>m. e = Warn_missing m) \<or> (\<exists>h ls. e = Write_csv out h ls)"
    using csv_scan_events by blast
next
  fix scanned :: "(json \<times> json) list \<times> string list"
  let ?fs = "select_detail_fields rdf"
  let ?cols = "sorted_prop_fields irdoc rdocf (snd scanned)"
  let ?hs = "csv_headers ird irdoc ?fs ?cols"
  obtain evs ls x where r: "csv_rows fd ird irdoc ?fs ?cols ?hs (fst scanned) = (evs, ls, x)"
    by (cases "csv_rows fd ird irdoc ?fs ?cols ?hs (fst scanned)") auto
  have "\<forall>e \<in> set evs. lookup_or_log e"
    using csv_rows_events[of fd ird irdoc ?fs ?cols ?hs "fst scanned"] r is_log_error_lookup_or_log
    by auto
  moreover have "\<forall>e \<in> set (missing_warning irdoc rdocf ?cols). \<exists>m. e = Warn_missing m"
    by (rule missing_warning_events)
  ultimately show "\<forall>e\<in>set (fst (let detail_fields = select_detail_fields rdf;
                            cols = sorted_prop_fields irdoc rdocf (snd scanned);
                            headers = csv_headers ird irdoc detail_fields cols
                        in case csv_rows fd ird irdoc detail_fields cols headers (fst scanned) of
                           (evs, lines, x) \<Rightarrow>
                             (missing_warning irdoc rdocf cols @ evs @ [Write_csv out headers lines],
                              case x of None \<Rightarrow> Return (length lines) | Some e \<Rightarrow> Raise e))).
       lookup_or_log e \<or> (\<exists>m. e = Warn_missing m) \<or> (\<exists>h ls. e = Write_csv out h ls)"
    by (auto simp: Let_def r)
qed

lemma local_mail_events:
  "\<forall>e \<in> set (fst (local_mail sm rs)). is_log_error e \<or> (\<exists>x. e = Mail_sent x) \<or> (\<exists>x. e = Mail_refused x)"
  by (induction rs) (auto simp: is_log_error_def split: sum.splits prod.splits)

lemma send_email_report_events:
  "\<forall>e \<in> set (fst (send_email_report sm sp srv rs)).
     is_log_error e \<or> (\<exists>x. e = Mail_sent x) \<or> (\<exists>x. e = Mail_refused x)"
  using local_mail_events[of sm rs]
  by (auto simp: send_email_report_def is_log_error_def split: option.splits)

lemma bindR_mem:
  assumes "e \<in> set (fst (bindR m f))"
  obtains "e \<in> set (fst m)" | v where "snd m = Return v" "e \<in> set (fst (f v))"
proof (cases m)
  case (Pair evs r)
  with assms that show ?thesis by (cases r) auto
qed

lemma liftE_ReturnD: "snd (liftE m) = Return v \<Longrightarrow> m = Inr v"
  by (cases m) simp_all

lemma csv_stage_no_summary:
  "Summary n a b c \<notin> set (fst (if g then bindR (process_tickets_to_csv http fd tickets out ird irdoc rdf rdocf) (\<lambda>n. ([], Return [out])) else ([], Return [])))"
  using process_tickets_to_csv_events[of http fd tickets out ird irdoc rdf rdocf]
  by (auto elim!: bindR_mem simp: lookup_or_log_def)

lemma html_stage_no_summary:
  "Summary n a b c \<notin> set (fst (if g then bindR (generate_html_report http fd fm burl tickets out ird irdoc rdf rdocf) (\<lambda>n. ([], Return [out])) else ([], Return [])))"
  using generate_html_report_events[of http fd fm burl tickets out ird irdoc rdf rdocf]
  by (auto elim!: bindR_mem simp: lookup_or_log_def)

lemma mail_stage_no_summary:
  "Summary n a b c \<notin> set (fst (if g then (fst (send_email_report sm sp srv rs), Return ()) else ([], Return ())))"
  using send_email_report_events[of sm sp srv rs]
  by (auto simp: is_log_error_def)

lemma make_reports_summary:
  assumes "Summary n a b c \<in> set (fst (make_reports w opts tickets))"
  shows "n = length tickets \<and> count_status ''Review'' tickets = Inr a
       \<and> count_status ''Completed'' tickets = Inr b \<and> count_status ''Cancelled'' tickets = Inr c"
proof (cases "tickets = []")
  case True
  with assms show ?thesis by (simp add: make_reports_def)
next
  case False
  from assms show ?thesis
    unfolding make_reports_def Let_def if_not_P[OF False]
    apply (elim bindR_mem)
    apply (simp_all add: csv_stage_no_summary html_stage_no_summary mail_stage_no_summary)
    apply (auto dest!: liftE_ReturnD split: if_splits)
    done
qed

lemmas eval_table =
  generate_html_report_def count_status_def html_table_row_def lower_def to_lower_def
  upper_letters_def lower_letters_def select_detail_fields_def sorted_prop_fields_def

lemma example_html_report:
  "\<exists>doc. fst (generate_html_report (\<lambda>d p r. Request_exception) Some (\<lambda>v. []) [] [review_ticket, draft_ticket]
         ''r.html'' False False None None) = [Write_html ''r.html'' doc]"
  by (simp add: eval_table eval_html review_ticket_def draft_ticket_def)

lemma map_exn_pairs:
  "map_exn (\<lambda>f. bindE (g f) (\<lambda>v. Inr (h f, v))) xs = Inr kvs \<Longrightarrow> (k, v) \<in> set kvs
     \<Longrightarrow> \<exists>f \<in> set xs. k = h f \<and> g f = Inr v"
proof (induction xs arbitrary: kvs)
  case Nil
  then show ?case by simp
next
  case (Cons x xs)
  from Cons.prems(1) obtain y ys where y: "g x = Inr y"
    and ys: "map_exn (\<lambda>f. bindE (g f) (\<lambda>v. Inr (h f, v))) xs = Inr ys" and kvs: "kvs = (h x, y) # ys"
    by (auto simp: bindE_eq_Inr)
  show ?case
  proof (cases "(k, v) = (h x, y)")
    case True
    with y show ?thesis by auto
  next
    case False
    with Cons.prems(2) kvs have "(k, v) \<in> set ys" by auto
    from Cons.IH[OF ys this] show ?thesis by auto
  qed
qed

lemma map_of_rev_pairs:
  assumes "k \<in> fst ` set xs" and "\<And>v. (k, v) \<in> set xs \<Longrightarrow> P v"
  shows "\<exists>v. map_of (rev xs) k = Some v \<and> P v"
proof -
  from assms(1) obtain v0 where "(k, v0) \<in> set (rev xs)" by auto
  then obtain v where v: "map_of (rev xs) k = Some v" using weak_map_of_SomeI by fastforce
  then have "(k, v) \<in> set xs" using map_of_SomeD by fastforce
  with v assms(2) show ?thesis by blast
qed

lemma map_of_append_hit: "map_of xs k = Some v \<Longrightarrow> map_of (xs @ ys) k = Some v"
  by simp

lemma title_inj_available:
  assumes "f \<in> set available_detail_fields" "g \<in> set available_detail_fields" "title f = title g"
  shows "f = g"
proof -
  have "distinct (map title available_detail_fields)"
    unfolding title_available by simp
  then have "inj_on title (set available_detail_fields)"
    by (simp add: distinct_map)
  with assms show ?thesis by (auto dest: inj_onD)
qed

lemma title_not_doc_header:
  assumes "f \<in> set available_detail_fields"
  shows "title f \<noteq> doc_header g"
proof -
  have "title f \<in> set (map title available_detail_fields)" using assms by simp
  then show ?thesis unfolding title_available by (auto simp: doc_header_def)
qed

lemma csv_row_detail_column:
  assumes "csv_row fd True irdoc fs cols ticket rd = Inr row"
    and "set fs \<subseteq> set available_detail_fields" and "f \<in> set fs"
  shows "\<exists>v. row_get row (title f) = Some v
           \<and> (if truthy rd then detail_value f rd = Inr v else v = NA)"
proof -
  from assms(1) obtain v1 v2 v3 st v5 v6 v7 v8 ac v10 v11 details docs where
    de: "csv_details True fs rd = Inr details"
    and dc: "csv_docs irdoc cols rd = Inr docs"
    and row: "row = [(''Ticket ID'', v1), (''Created Date'', v2), (''Completed Date'', v3), (''Status'', st),
            (''Device Name'', v5), (''Device ID'', v6), (''Policy Name'', v7), (''Rule Number'', v8),
            (''Rule Name'', NA), (''Assignee/Completed By'', ac), (''Created By'', v10),
            (''Rule Name'', v11)] @ details @ docs"
    by (rule csv_row_Inr)
  have fa: "f \<in> set available_detail_fields" using assms(2,3) by blast
  have miss: "title f \<notin> fst ` set (rev docs)"
    using csv_docs_keys[OF dc] title_not_doc_header[OF fa] by auto
  have "\<exists>v. map_of (rev details) (title f) = Some v
           \<and> (if truthy rd then detail_value f rd = Inr v else v = NA)"
  proof (cases "truthy rd")
    case True
    then obtain kvs where kvs: "rule_detail_values fs rd = Inr kvs"
      and d: "details = map (\<lambda>kv. (title (fst kv), snd kv)) kvs"
      using de by (auto simp: csv_details_def bindE_eq_Inr)
    have keys: "map fst kvs = filter (\<lambda>f. f \<in> set fs) available_detail_fields"
      using kvs map_exn_keys[of "\<lambda>f. detail_value f rd" "\<lambda>f. f" _ kvs]
      by (simp add: rule_detail_values_def)
    have "f \<in> set (map fst kvs)" unfolding keys using fa assms(3) by simp
    then have k: "title f \<in> fst ` set details" unfolding d by force
    have "detail_value f rd = Inr v" if "(title f, v) \<in> set details" for v
    proof -
      from that obtain g where g: "(g, v) \<in> set kvs" "title g = title f"
        unfolding d by auto
      from map_exn_pairs[OF kvs[unfolded rule_detail_values_def] g(1)]
      have "g \<in> set available_detail_fields" "detail_value g rd = Inr v" by auto
      with title_inj_available[OF this(1) fa g(2)] show ?thesis by simp
    qed
    from map_of_rev_pairs[OF k, of "\<lambda>v. detail_value f rd = Inr v", OF this]
    show ?thesis using True by simp
  next
    case False
    then have d: "details = map (\<lambda>f. (title f, NA)) fs"
      using de by (simp add: csv_details_def)
    have k: "title f \<in> fst ` set details" unfolding d using assms(3) by force
    have "v = NA" if "(title f, v) \<in> set details" for v
      using that unfolding d by auto
    from map_of_rev_pairs[OF k, of "\<lambda>v. v = NA", OF this]
    show ?thesis using False by simp
  qed
  then obtain v where v: "map_of (rev details) (title f) = Some v"
    and p: "if truthy rd then detail_value f rd = Inr v else v = NA" by blast
  have "row_get row (title f) = map_of (rev details @ rev
           [(''Ticket ID'', v1), (''Created Date'', v2), (''Completed Date'', v3), (''Status'', st),
            (''Device Name'', v5), (''Device ID'', v6), (''Policy Name'', v7), (''Rule Number'', v8),
            (''Rule Name'', NA), (''Assignee/Completed By'', ac), (''Created By'', v10),
            (''Rule Name'', v11)]) (title f)"
    unfolding row row_get_def rev_append append_assoc using miss by (rule map_of_append_miss)
  also have "\<dots> = Some v" using v by (rule map_of_append_hit)
  finally show ?thesis using p by blast
qed

lemma csv_row_doc_column:
  assumes "csv_row fd ird True fs cols ticket rd = Inr row" and "f \<in> set cols"
  shows "\<exists>v. row_get row (doc_header f) = Some v
           \<and> (if truthy rd then
                 \<exists>props g. py_get rd ''props'' (JObj []) = Inr props \<and> g \<in> set cols
                    \<and> doc_header g = doc_header f \<and> py_get props g NA = Inr v
               else v = NA)"
proof -
  from assms(1) obtain v1 v2 v3 st v5 v6 v7 v8 ac v10 v11 details docs where
    dc: "csv_docs True cols rd = Inr docs"
    and row: "row = [(''Ticket ID'', v1), (''Created Date'', v2), (''Completed Date'', v3), (''Status'', st),
            (''Device Name'', v5), (''Device ID'', v6), (''Policy Name'', v7), (''Rule Number'', v8),
            (''Rule Name'', NA), (''Assignee/Completed By'', ac), (''Created By'', v10),
            (''Rule Name'', v11)] @ details @ docs"
    by (rule csv_row_Inr)
  have ne: "cols \<noteq> []" using assms(2) by auto
  have "\<exists>v. map_of (rev docs) (doc_header f) = Some v
           \<and> (if truthy rd then
                 \<exists>props g. py_get rd ''props'' (JObj []) = Inr props \<and> g \<in> set cols
                    \<and> doc_header g = doc_header f \<and> py_get props g NA = Inr v
               else v = NA)"
  proof (cases "truthy rd")
    case True
    then obtain props where props: "py_get rd ''props'' (JObj []) = Inr props"
      and m: "map_exn (\<lambda>f. bindE (py_get props f NA) (\<lambda>v. Inr (doc_header f, v))) cols = Inr docs"
      using dc ne by (auto simp: csv_docs_def bindE_eq_Inr)
    have "map fst docs = map doc_header cols" using m by (rule map_exn_keys)
    then have k: "doc_header f \<in> fst ` set docs"
      using assms(2) by (metis image_eqI list.set_map)
    have "\<exists>g. g \<in> set cols \<and> doc_header g = doc_header f \<and> py_get props g NA = Inr v"
      if "(doc_header f, v) \<in> set docs" for v
      using map_exn_pairs[OF m that] by auto
    from map_of_rev_pairs[OF k, of "\<lambda>v. \<exists>g. g \<in> set cols \<and> doc_header g = doc_header f \<and> py_get props g NA = Inr v", OF this]
    show ?thesis using True props by auto
  next
    case False
    then have d: "docs = map (\<lambda>f. (doc_header f, NA)) cols"
      using dc ne by (simp add: csv_docs_def)
    have k: "doc_header f \<in> fst ` set docs" unfolding d using assms(2) by force
    have "v = NA" if "(doc_header f, v) \<in> set docs" for v
      using that unfolding d by auto
    from map_of_rev_pairs[OF k, of "\<lambda>v. v = NA", OF this]
    show ?thesis using False by simp
  qed
  then obtain v where v: "map_of (rev docs) (doc_header f) = Some v"
    and p: "if truthy rd then
                 \<exists>props g. py_get rd ''props'' (JObj []) = Inr props \<and> g \<in> set cols
                    \<and> doc_header g = doc_header f \<and> py_get props g NA = Inr v
               else v = NA" by blast
  have "row_get row (doc_header f) = Some v"
    unfolding row row_get_def rev_append append_assoc using v by (rule map_of_append_hit)
  then show ?thesis using p by blast
qed

lemma map_exn_nth:
  "map_exn f xs = Inr ys \<Longrightarrow> length ys = length xs \<and> (\<forall>i < length xs. f (xs ! i) = Inr (ys ! i))"
proof (induction xs arbitrary: ys)
  case Nil
  then show ?case by simp
next
  case (Cons x xs)
  from Cons.prems obtain y ys' where y: "f x = Inr y" "map_exn f xs = Inr ys'" "ys = y # ys'"
    by (auto simp: bindE_eq_Inr)
  with Cons.IH[OF y(2)] show ?case by (auto simp: nth_Cons split: nat.splits)
qed

lemma map_exn_total:
  "(\<And>x. x \<in> set xs \<Longrightarrow> f x = Inr (g x)) \<Longrightarrow> map_exn f xs = Inr (map g xs)"
  by (induction xs) simp_all

lemma map_exn_lookup:
  assumes "map_exn (\<lambda>f. bindE (g f) (\<lambda>v. Inr (f, v))) xs = Inr kvs" and "x \<in> set xs"
  shows "\<exists>v. g x = Inr v \<and> map_of kvs x = Some v"
proof -
  have "map fst kvs = xs" using map_exn_keys[OF assms(1)] by simp
  then have "x \<in> fst ` set kvs" using assms(2) by (metis list.set_map)
  then obtain v where v: "map_of kvs x = Some v" using weak_map_of_SomeI by fastforce
  then have "(x, v) \<in> set kvs" by (rule map_of_SomeD)
  from map_exn_pairs[OF assms(1) this] v show ?thesis by auto
qed

lemma html_enrich_detail:
  assumes "html_enrich True irdoc fs td0 rd = Inr (td, ks)"
    and "f \<in> set fs" "f \<in> set available_detail_fields"
  shows "\<exists>v. detail_value f rd = Inr v \<and> map_of (td_details td) f = Some v"
proof -
  from assms(1) obtain kvs where kvs: "rule_detail_values fs rd = Inr kvs" and d: "td_details td = kvs"
    unfolding html_enrich_def
    by (elim bindE_InrE) (cases irdoc; simp; (elim bindE_InrE)?; auto)
  have "f \<in> set (filter (\<lambda>f. f \<in> set fs) available_detail_fields)" using assms(2,3) by simp
  from map_exn_lookup[OF kvs[unfolded rule_detail_values_def] this] d show ?thesis by simp
qed

lemma html_enrich_props:
  assumes "html_enrich ird True fs td0 rd = Inr (td, ks)"
  shows "\<exists>kvs. py_get rd ''props'' (JObj []) = Inr (JObj kvs) \<and> td_props td = JObj kvs \<and> ks = map fst kvs"
proof -
  from assms obtain props where p: "py_get rd ''props'' (JObj []) = Inr props"
    and k: "py_keys props = Inr ks" and t: "td_props td = props"
    unfolding html_enrich_def
    by (elim bindE_InrE) (simp, (elim bindE_InrE), auto)
  from k obtain kvs where "props = JObj kvs" "ks = map fst kvs" by (cases props) auto
  with p t show ?thesis by simp
qed

lemma html_table_row_cells:
  assumes "html_table_row fm ird irdoc fs cols td = Inr tr"
  shows "detail_cells tr =
           (if ird then
              map (\<lambda>f. Text (py_format fm (case map_of (td_details td) f of Some v \<Rightarrow> v | None \<Rightarrow> NA))) fs
            else [])"
    and "if irdoc then map_exn (doc_cell fm (td_props td)) cols = Inr (doc_cells tr) else doc_cells tr = []"
  using assms unfolding html_table_row_def
  by (elim bindE_InrE; auto split: if_splits)+


lemma doc_cell_absent:
  assumes "map_of ps f = None"
  shows "doc_cell fm (JObj ps) f = Inr (Doc_cell ''N/A'' ''N/A'')"
  using assms by (simp add: doc_cell_def py_format_def NA_def)


lemma example_plain_rule_row:
  "\<exists>td0 d p r td ks tr.
      html_base Some (\<lambda>v. []) [] rule_ticket = Inr (td0, d, p, r)
    \<and> html_enrich False True [] td0 plain_rule = Inr (td, ks)
    \<and> html_table_row (\<lambda>v. []) False True [] [''owner''] td = Inr tr"
  by (simp add: eval_html eval_table rule_ticket_def plain_rule_def html_enrich_def doc_cell_def)

lemma example_plain_rule_csv:
  "\<exists>row. csv_row Some False True [] [''owner''] rule_ticket plain_rule = Inr row"
  by (simp add: eval_row rule_ticket_def plain_rule_def)

lemma lacking_ids_no_lookup_condition:
  assumes "map_of vs ''deviceId'' = None
           \<or> map_of vs ''ruleGuid'' = None \<or> map_of vs ''ruleGuid'' = Some (JStr [])
           \<or> map_of vs ''policyGuid'' = None \<or> map_of vs ''policyGuid'' = Some (JStr [])"
    and "py_get (JObj vs) ''deviceId'' NA = Inr d"
    and "py_get (JObj vs) ''ruleGuid'' (JStr []) = Inr r"
    and "py_get (JObj vs) ''policyGuid'' (JStr []) = Inr p"
  shows "\<not> (truthy r \<and> truthy p \<and> d \<noteq> NA)"
  using assms by (elim disjE) auto

lemma csv_enrich_lacking_ids:
  assumes "py_get ticket ''variables'' (JObj []) = Inr (JObj vs)"
    and "map_of vs ''deviceId'' = None
           \<or> map_of vs ''ruleGuid'' = None \<or> map_of vs ''ruleGuid'' = Some (JStr [])
           \<or> map_of vs ''policyGuid'' = None \<or> map_of vs ''policyGuid'' = Some (JStr [])"
  shows "csv_enrich http ird irdoc ticket = ([], Return (JNull, []))"
proof (cases "ird \<or> irdoc")
  case True
  obtain d r p where g: "py_get (JObj vs) ''deviceId'' NA = Inr d"
    "py_get (JObj vs) ''ruleGuid'' (JStr []) = Inr r" "py_get (JObj vs) ''policyGuid'' (JStr []) = Inr p"
    by simp
  from lacking_ids_no_lookup_condition[OF assms(2) g]
  have c: "(truthy r \<and> truthy p \<and> d \<noteq> NA) = False" by simp
  show ?thesis unfolding csv_enrich_def if_P[OF True] assms(1) by (simp add: g c del: py_get.simps)
next
  case False
  then show ?thesis by (simp add: csv_enrich_def)
qed

lemma html_ticket_data_lacking_ids:
  assumes "py_get ticket ''variables'' (JObj []) = Inr (JObj vs)"
    and "map_of vs ''deviceId'' = None
           \<or> map_of vs ''ruleGuid'' = None \<or> map_of vs ''ruleGuid'' = Some (JStr [])
           \<or> map_of vs ''policyGuid'' = None \<or> map_of vs ''policyGuid'' = Some (JStr [])"
  shows "fst (html_ticket_data http fd fm burl ird irdoc fs ticket) = []"
    and "html_ticket_data http fd fm burl ird irdoc fs ticket = (evs, Inr (td, ks))
           \<Longrightarrow> ks = [] \<and> td_details td = [] \<and> td_props td = JObj []"
proof -
  have no: "\<not> (truthy r \<and> truthy p \<and> d \<noteq> NA)"
    if "html_base fd fm burl ticket = Inr (td0, d, p, r)" for td0 d p r
  proof -
    from that obtain vars where "py_get ticket ''variables'' (JObj []) = Inr vars"
      "py_get vars ''deviceId'' NA = Inr d" "py_get vars ''policyGuid'' (JStr []) = Inr p"
      "py_get vars ''ruleGuid'' (JStr []) = Inr r"
      by (elim html_base_Inr)
    with assms(1) have "py_get (JObj vs) ''deviceId'' NA = Inr d"
      "py_get (JObj vs) ''ruleGuid'' (JStr []) = Inr r" "py_get (JObj vs) ''policyGuid'' (JStr []) = Inr p"
      by simp_all
    from lacking_ids_no_lookup_condition[OF assms(2) this] show ?thesis .
  qed
  show "fst (html_ticket_data http fd fm burl ird irdoc fs ticket) = []"
  proof (cases "html_base fd fm burl ticket")
    case (Inl e)
    then show ?thesis by (simp add: html_ticket_data_def)
  next
    case (Inr x)
    obtain td0 d p r where x: "x = (td0, d, p, r)" by (cases x) auto
    from no[OF Inr[unfolded x]] show ?thesis
      unfolding html_ticket_data_def Inr x by auto
  qed
  assume h: "html_ticket_data http fd fm burl ird irdoc fs ticket = (evs, Inr (td, ks))"
  from h obtain td0 d p r where b: "html_base fd fm burl ticket = Inr (td0, d, p, r)"
    and c: "(td = td0 \<and> ks = [] \<and> td_details td = [] \<and> td_props td = JObj [])
         \<or> ((ird \<or> irdoc) \<and> truthy r \<and> truthy p \<and> d \<noteq> NA
             \<and> (\<exists>rd. truthy rd \<and> html_enrich ird irdoc fs td0 rd = Inr (td, ks)))"
    by (rule html_ticket_data_cases)
  from no[OF b] c show "ks = [] \<and> td_details td = [] \<and> td_props td = JObj []" by blast
qed

lemma example_unenriched_rows:
  "(\<exists>row. csv_row Some True True (select_detail_fields None) [''owner''] review_ticket JNull = Inr row)
   \<and> (\<exists>evs td ks tr.
          html_ticket_data rule_server Some (\<lambda>v. []) [] True True (select_detail_fields None) review_ticket
            = (evs, Inr (td, ks))
        \<and> html_table_row (\<lambda>v. []) True True (select_detail_fields None) [''owner''] td = Inr tr)"
  by (simp add: eval_row eval_html eval_table review_ticket_def doc_cell_def available_detail_fields_def)

lemma names_of_objects:
  "names_of key (JArr (map JObj xs)) = Inr (map (\<lambda>x. case map_of x key of Some v \<Rightarrow> v | None \<Rightarrow> NA) xs)"
  unfolding names_of_def py_iter.simps bindE_Inr
  by (rule map_exn_total[of "map JObj xs" _ "\<lambda>j. case j of JObj x \<Rightarrow> (case map_of x key of Some v \<Rightarrow> v | None \<Rightarrow> NA) | _ \<Rightarrow> NA",
        unfolded map_map comp_def json.case]) auto

lemma py_join_strings: "py_join sep (map JStr ns) = Inr (join_str sep ns)"
  by (induction sep ns rule: join_str.induct) simp_all

lemma source_value_empty:
  assumes "map_of r ''sources'' = None \<or> map_of r ''sources'' = Some (JArr [])"
  shows "source_value (JObj r) = Inr (JStr ''Any'')"
  using assms by (auto simp: source_value_def names_of_def joined_or_any_def)

lemma source_value_joined:
  assumes "map_of r ''sources'' = Some (JArr (map JObj ss))" and "ss \<noteq> []"
    and "map (\<lambda>s. case map_of s ''displayName'' of Some v \<Rightarrow> v | None \<Rightarrow> NA) ss = map JStr ns"
  shows "source_value (JObj r) = Inr (JStr (join_str '', '' ns))"
proof -
  have "ns \<noteq> []" using assms(2,3) by (metis map_is_Nil_conv)
  then show ?thesis
    using assms(1) by (simp add: source_value_def names_of_objects assms(3) joined_or_any_def py_join_strings)
qed

lemma app_name_object:
  "app_name (JObj a) =
     Inr (if map_of a ''displayName'' \<noteq> Some (JStr ''Any'')
          then [case map_of a ''displayName'' of Some v \<Rightarrow> v | None \<Rightarrow> NA] else [])"
  by (cases "map_of a ''displayName''") (simp_all add: app_name_def)

lemma concat_filter_singletons:
  "concat (map (\<lambda>a. if P a then [g a] else []) xs) = map g (filter P xs)"
  by (induction xs) simp_all

lemma application_value_filtered:
  assumes "map_of r ''apps'' = Some (JArr (map JObj as))"
  shows "application_value (JObj r) =
           joined_or_any (map (\<lambda>a. case map_of a ''displayName'' of Some v \<Rightarrow> v | None \<Rightarrow> NA)
                            (filter (\<lambda>a. map_of a ''displayName'' \<noteq> Some (JStr ''Any'')) as))"
proof -
  have "map_exn app_name (map JObj as) =
          Inr (map (\<lambda>j. case j of JObj a \<Rightarrow>
                      (if map_of a ''displayName'' \<noteq> Some (JStr ''Any'')
                       then [case map_of a ''displayName'' of Some v \<Rightarrow> v | None \<Rightarrow> NA] else [])
                    | _ \<Rightarrow> []) (map JObj as))"
    by (rule map_exn_total) (auto simp: app_name_object)
  then show ?thesis
    using assms by (simp add: application_value_def comp_def concat_filter_singletons)
qed

lemma title_application: "title ''application'' = ''Application''"
  using title_available by (simp add: available_detail_fields_def)

lemma title_source: "title ''source'' = ''Source''"
  using title_available by (simp add: available_detail_fields_def)

lemmas eval_details =
  rule_detail_values_def detail_value_def source_value_def destination_value_def service_value_def
  application_value_def action_value_def app_name_def names_of_def joined_or_any_def
  available_detail_fields_def select_detail_fields_def title_def lower_letters_def upper_letters_def
  to_upper_def to_lower_def

lemma example_detailed_rows:
  "(\<exists>row. csv_row Some True False (select_detail_fields None) [] rule_ticket documented_rule = Inr row)
   \<and> (\<exists>td0 d p r td ks tr.
          html_base Some (\<lambda>v. []) [] rule_ticket = Inr (td0, d, p, r)
        \<and> html_enrich True False (select_detail_fields None) td0 documented_rule = Inr (td, ks)
        \<and> html_table_row (\<lambda>v. []) True False (select_detail_fields None) [] td = Inr tr)"
  by (simp add: eval_row eval_html eval_table eval_details rule_ticket_def documented_rule_def
        html_enrich_def)

lemma fetch_pages_short_page:
  assumes "http p page_size = Response 200 (Some (JObj d))"
    and "map_of d ''results'' = Some (JArr ts)" and "length ts < page_size"
  shows "fetch_pages http p acc = Some ([], Return (acc @ ts))"
proof (cases "ts = []")
  case True
  then show ?thesis by (subst fetch_pages.simps) (simp add: assms(1,2))
next
  case False
  then show ?thesis using assms(3) by (subst fetch_pages.simps) (simp add: assms(1,2))
qed

lemma fetch_pages_no_results:
  assumes "http p page_size = Response 200 (Some (JObj d))" and "map_of d ''results'' = None"
  shows "fetch_pages http p acc = Some ([], Return acc)"
  by (subst fetch_pages.simps) (simp add: assms)

lemma fetch_pages_full_page:
  assumes "http p page_size = Response 200 (Some (JObj d))"
    and "map_of d ''results'' = Some (JArr ts)" and "page_size \<le> length ts"
  shows "fetch_pages http p acc = fetch_pages http (Suc p) (acc @ ts)"
proof -
  have "ts \<noteq> []" using assms(3) by (auto simp: page_size_def)
  then show ?thesis
    using assms by (subst fetch_pages.simps) simp
qed

lemma fetch_pages_request_failure:
  assumes "http p page_size = Request_exception"
  shows "fetch_pages http p acc = Some ([Log_error (Fetch_request_error p)], Exit 1)"
  by (subst fetch_pages.simps) (simp add: assms)

lemma fetch_pages_http_error:
  assumes "http p page_size = Response code body" and "code \<noteq> 200"
  shows "fetch_pages http p acc = Some ([Log_error (Fetch_http_error code)], Exit 1)"
  by (subst fetch_pages.simps) (simp add: assms)

lemma fetch_pages_full_run:
  assumes "\<And>j. p \<le> j \<Longrightarrow> j < q \<Longrightarrow>
             http j page_size = Response 200 (Some (JObj (d j)))
             \<and> map_of (d j) ''results'' = Some (JArr (page j)) \<and> page_size \<le> length (page j)"
    and "p \<le> q"
  shows "fetch_pages http p acc = fetch_pages http q (acc @ concat (map page [p..<q]))"
  using assms
proof (induction q)
  case 0
  then show ?case by simp
next
  case (Suc q)
  show ?case
  proof (cases "p = Suc q")
    case True
    then show ?thesis by simp
  next
    case False
    with Suc.prems(2) have pq: "p \<le> q" by simp
    have "fetch_pages http p acc = fetch_pages http q (acc @ concat (map page [p..<q]))"
      using Suc.IH[OF _ pq] Suc.prems(1) by simp
    also have "\<dots> = fetch_pages http (Suc q) ((acc @ concat (map page [p..<q])) @ page q)"
      using Suc.prems(1)[of q] pq by (intro fetch_pages_full_page[of http q "d q"]) simp_all
    finally show ?thesis using pq by simp
  qed
qed

lemma fetch_pages_events:
  assumes "fetch_pages http p acc = Some r"
  shows "(\<forall>ts. snd r = Return ts \<longrightarrow> fst r = []) \<and> (\<forall>e \<in> set (fst r). is_log_error e)"
proof (rule fetch_pages.raw_induct[where P = "\<lambda>http p acc r.
         (\<forall>ts. snd r = Return ts \<longrightarrow> fst r = []) \<and> (\<forall>e \<in> set (fst r). is_log_error e)", OF _ assms])
  fix f :: "(nat \<Rightarrow> nat \<Rightarrow> http_result) \<Rightarrow> nat \<Rightarrow> json list \<Rightarrow> json list run option"
    and http page all_tickets r
  assume ih: "\<And>http page all_tickets r. f http page all_tickets = Some r \<Longrightarrow>
         (\<forall>ts. snd r = Return ts \<longrightarrow> fst r = []) \<and> (\<forall>e \<in> set (fst r). is_log_error e)"
    and body: "(case http page page_size of
        Request_exception \<Rightarrow> Some ([Log_error (Fetch_request_error page)], Exit 1)
      | Response code body \<Rightarrow>
          if code = 200 then
            (case body of
               None \<Rightarrow> Some ([], Raise JSONDecodeError)
             | Some data \<Rightarrow>
                 (case py_get data ''results'' (JArr []) of
                    Inl e \<Rightarrow> Some (on_parse_exn e)
                  | Inr tickets \<Rightarrow>
                      if \<not> truthy tickets then Some ([], Return all_tickets)
                      else
                        (case py_iter tickets of
                           Inl e \<Rightarrow> Some (on_parse_exn e)
                         | Inr ts \<Rightarrow>
                             if length ts < page_size then Some ([], Return (all_tickets @ ts))
                             else f http (Suc page) (all_tickets @ ts))))
          else Some ([Log_error (Fetch_http_error code)], Exit 1)) = Some r"
  from body consider
      (stop) "(\<forall>ts. snd r = Return ts \<longrightarrow> fst r = []) \<and> (\<forall>e \<in> set (fst r). is_log_error e)"
    | (again) acc' where "f http (Suc page) acc' = Some r"
    by (auto simp: is_log_error_def on_parse_exn_def
             split: http_result.splits if_splits option.splits sum.splits)
  then show "(\<forall>ts. snd r = Return ts \<longrightarrow> fst r = []) \<and> (\<forall>e \<in> set (fst r). is_log_error e)"
  proof cases
    case stop
    then show ?thesis .
  next
    case again
    then show ?thesis by (rule ih)
  qed
qed

lemma bindR_snd_Return:
  assumes "snd (bindR m f) = Return v"
  obtains u where "snd m = Return u" "snd (f u) = Return v" "fst (bindR m f) = fst m @ fst (f u)"
proof (cases m)
  case (Pair evs r)
  with assms that show ?thesis by (cases r) auto
qed

lemma make_reports_returns_summary:
  assumes "snd (make_reports w opts tickets) = Return u"
  shows "\<exists>a b c. Summary (length tickets) a b c \<in> set (fst (make_reports w opts tickets))"
proof (cases "tickets = []")
  case True
  with assms show ?thesis by (simp add: make_reports_def)
next
  case False
  from assms show ?thesis
    unfolding make_reports_def Let_def if_not_P[OF False]
    apply (elim bindR_snd_Return)
    apply (simp only:)
    apply auto
    done
qed

lemmas eval_run =
  make_reports_def example_world_def example_options_def process_tickets_to_csv_def
  csv_enrich_def missing_warning_def csv_headers_def base_headers_def written_line_def
  send_email_report_def base_filename_def reports_dir_def str_int_def days_given_def doc_cell_def
  Let_def

lemma example_run_summary:
  "Summary 2 1 0 0 \<in> set (fst (make_reports example_world example_options [review_ticket, draft_ticket]))"
  by (simp add: eval_run eval_row eval_html eval_table eval_details review_ticket_def draft_ticket_def)

lemma example_run_returns:
  "snd (make_reports example_world example_options [review_ticket, draft_ticket]) = Return ()"
  by (simp add: eval_run eval_row eval_html eval_table eval_details review_ticket_def draft_ticket_def)

lemma example_draft_html:
  "\<exists>evs td ks tr.
      html_ticket_data rule_server Some (\<lambda>v. []) [] True True (select_detail_fields None) draft_ticket
        = (evs, Inr (td, ks))
    \<and> html_table_row (\<lambda>v. []) True True (select_detail_fields None) [] td = Inr tr"
  by (simp add: eval_html eval_table draft_ticket_def available_detail_fields_def)

lemma authenticate_Return_events:
  assumes "authenticate post = (evs, Return token)"
  shows "evs = []"
  using assms
  by (auto simp: authenticate_def split: http_result.splits if_splits option.splits sum.splits)

lemma example_empty_fetch:
  "get_po_tickets (quote example_world) (ticket_search example_world) (workflow_id example_options)
     (status_filter example_options) (days_filter example_options) = Some ([], Return [])"
proof -
  have "fetch_pages (empty_search q) 0 [] = Some ([], Return ([] @ []))" for q
    by (rule fetch_pages_short_page[of _ _ "[(''results'', JArr [])]"])
       (simp_all add: empty_search_def page_size_def)
  then show ?thesis
    by (simp add: get_po_tickets_def example_world_def)
qed

lemma example_login:
  "authenticate (login example_world) = ([], Return (JStr ''tok''))"
  by (simp add: authenticate_def example_world_def)

lemma example_run_creates_directory:
  "Make_dirs ''po_reports'' \<in> set (fst (make_reports example_world example_options [review_ticket, draft_ticket]))"
  by (simp add: eval_run eval_row eval_html eval_table eval_details review_ticket_def draft_ticket_def)









lemma fetch_pages_not_json:
  assumes "http p page_size = Response 200 None"
  shows "fetch_pages http p acc = Some ([], Raise JSONDecodeError)"
  by (subst fetch_pages.simps) (simp add: assms)





lemma generate_html_report_no_warning:
  "Warn_missing m \<notin> set (fst (generate_html_report http fd fm burl tickets out ird irdoc rdf rdocf))"
  using generate_html_report_events[of http fd fm burl tickets out ird irdoc rdf rdocf]
  by (auto simp: lookup_or_log_def)

lemma example_html_requested_fields:
  "\<exists>doc. fst (generate_html_report rule_server Some (\<lambda>v. []) [] [rule_ticket] ''r.html'' False True None
               (Some [''owner'', ''reviewer'']))
           = [Rule_lookup (JNum 7) (JStr ''p-1'') (JStr ''r-1''), Write_html ''r.html'' doc]
         \<and> map fst (doc_headers doc) = [''Rule Doc: owner'']"
  by (simp add: eval_table eval_html rule_ticket_def rule_server_def documented_rule_def
        get_rule_details_def html_enrich_def doc_cell_def)

lemma example_csv_requested_fields:
  "\<exists>ls. fst (process_tickets_to_csv rule_server Some [rule_ticket] ''r.csv'' False True None
              (Some [''owner'', ''reviewer'']))
          = [Rule_lookup (JNum 7) (JStr ''p-1'') (JStr ''r-1''), Warn_missing {''reviewer''},
             Write_csv ''r.csv'' (base_headers @ [doc_header ''owner'']) ls]"
  by (simp add: process_tickets_to_csv_def csv_enrich_def get_rule_details_def rule_server_def
        documented_rule_def rule_ticket_def eval_row eval_table missing_warning_def csv_headers_def
        written_line_def Let_def)

section \<open>Claims\<close>

text \<open>
  C5. The column \<open>Assignee/Completed By\<close> of a ticket in status \<open>Review\<close> is the
  display name of its assignee, and that of a ticket in status \<open>Completed\<close> or
  \<open>Cancelled\<close> is the display name of \<open>completedBy\<close>; where the person has no display
  name the user name is taken (and \<open>N/A\<close> where there is neither). This holds for the row
  of the CSV file, for the entry kept by the HTML renderer and for the cell of the HTML
  table.
\<close>

theorem assignee_or_completer_by_status:
  assumes "map_of t ''status'' = Some (JStr s)"
    and "(s = ''Review'' \<and> map_of t ''assignee'' = Some (JObj p))
         \<or> ((s = ''Completed'' \<or> s = ''Cancelled'') \<and> map_of t ''completedBy'' = Some (JObj p))"
    and "p \<noteq> []"
    and "who = (case map_of p ''displayName'' of Some d \<Rightarrow> d
                | None \<Rightarrow> (case map_of p ''username'' of Some u \<Rightarrow> u | None \<Rightarrow> NA))"
  shows "(csv_row fd ird irdoc (select_detail_fields rdf) cols (JObj t) rd = Inr row
            \<longrightarrow> row_get row ''Assignee/Completed By'' = Some who)
       \<and> (html_ticket_data http fd fm burl ird irdoc fs (JObj t) = (evs, Inr (td, ks))
            \<longrightarrow> td_assignee_completed td = who
              \<and> (html_table_row fm ird irdoc fs hcols td = Inr tr
                   \<longrightarrow> base_cells tr ! 4 = Text (py_format fm who)))"
proof -
  have st: "py_get (JObj t) ''status'' NA = Inr (JStr s)"
    using assms(1) by simp
  have ac: "assignee_completed_of (JObj t) (JStr s) = Inr who"
    unfolding assignee_completed_of_person[OF assms(2,3)] person_name_obj assms(4) ..
  have csv: "row_get row ''Assignee/Completed By'' = Some who"
    if "csv_row fd ird irdoc (select_detail_fields rdf) cols (JObj t) rd = Inr row"
  proof -
    from that select_detail_fields_subset obtain st' ac' where
      "py_get (JObj t) ''status'' NA = Inr st'" "assignee_completed_of (JObj t) st' = Inr ac'"
      "row_get row ''Assignee/Completed By'' = Some ac'"
      by (rule csv_row_base_columns)
    with st ac show ?thesis by simp
  qed
  have html: "td_assignee_completed td = who"
    if "html_ticket_data http fd fm burl ird irdoc fs (JObj t) = (evs, Inr (td, ks))"
  proof -
    from that obtain st' ac' where
      "py_get (JObj t) ''status'' NA = Inr st'" "assignee_completed_of (JObj t) st' = Inr ac'"
      "td_assignee_completed td = ac'"
      by (rule html_ticket_data_Inr)
    with st ac show ?thesis by simp
  qed
  show ?thesis
    using csv html html_table_row_base[of fm ird irdoc fs hcols td tr] by simp
qed

theorem assignee_or_completer_by_status_witness:
  "(\<exists>row. csv_row Some False False (select_detail_fields None) [] review_ticket JNull = Inr row
       \<and> row_get row ''Assignee/Completed By'' = Some (JStr ''Alice''))
   \<and> (\<exists>evs td ks.
         html_ticket_data (\<lambda>d p r. Request_exception) Some (\<lambda>v. []) [] False False [] completed_ticket
           = (evs, Inr (td, ks))
       \<and> td_assignee_completed td = JStr ''bob'')"
proof (intro conjI)
  obtain row where r: "csv_row Some False False (select_detail_fields None) [] review_ticket JNull = Inr row"
    by (simp add: eval_row review_ticket_def)
  have "csv_row Some False False (select_detail_fields None) [] review_ticket JNull = Inr row
          \<longrightarrow> row_get row ''Assignee/Completed By'' = Some (JStr ''Alice'')"
    unfolding review_ticket_def
    by (rule assignee_or_completer_by_status
          [where s = "''Review''" and who = "JStr ''Alice''"
             and p = "[(''displayName'', JStr ''Alice''), (''username'', JStr ''alice'')]",
           THEN conjunct1])
       simp_all
  with r show "\<exists>row. csv_row Some False False (select_detail_fields None) [] review_ticket JNull = Inr row
       \<and> row_get row ''Assignee/Completed By'' = Some (JStr ''Alice'')" by blast
next
  obtain evs td ks where h:
    "html_ticket_data (\<lambda>d p r. Request_exception) Some (\<lambda>v. []) [] False False [] completed_ticket
       = (evs, Inr (td, ks))"
    by (simp add: eval_html completed_ticket_def)
  have "html_ticket_data (\<lambda>d p r. Request_exception) Some (\<lambda>v. []) [] False False [] completed_ticket
       = (evs, Inr (td, ks)) \<longrightarrow> td_assignee_completed td = JStr ''bob''"
    unfolding completed_ticket_def
    using assignee_or_completer_by_status
          [where s = "''Completed''" and who = "JStr ''bob''" and p = "[(''username'', JStr ''bob'')]"
             and t = "[(''businessKey'', JStr ''PO-2''), (''status'', JStr ''Completed''),
                       (''assignee'', JObj [(''displayName'', JStr ''Alice'')]),
                       (''completedBy'', JObj [(''username'', JStr ''bob'')])]"
             and http = "\<lambda>d p r. Request_exception" and fd = Some and fm = "\<lambda>v. []" and burl = "[]"
             and ird = False and irdoc = False and fs = "[]" and evs = evs and td = td and ks = ks]
    by (simp add: NA_def)
  with h show "\<exists>evs td ks.
         html_ticket_data (\<lambda>d p r. Request_exception) Some (\<lambda>v. []) [] False False [] completed_ticket
           = (evs, Inr (td, ks))
       \<and> td_assignee_completed td = JStr ''bob''" by blast
qed



text \<open>
  C9. For a ticket whose rule record has no documentation properties (the key
  \<open>props\<close> absent or an empty dictionary), the row of the CSV file holds \<open>N/A\<close> under
  every documentation column of the run, and the row of the HTML table shows \<open>N/A\<close> in
  every documentation cell, with \<open>N/A\<close> as its title: the two renderers agree.
\<close>

theorem no_properties_placeholder_in_both:
  assumes "rd = JObj r" and "r \<noteq> []"
    and "map_of r ''props'' = None \<or> map_of r ''props'' = Some (JObj [])"
    and "i < length cols"
  shows "(csv_row fd ird True fs cols ticket rd = Inr row
            \<longrightarrow> row_get row (doc_header (cols ! i)) = Some (JStr ''N/A''))
       \<and> (html_enrich ird True fs td0 rd = Inr (td, ks)
              \<and> html_table_row fm ird True fs cols td = Inr tr
            \<longrightarrow> doc_cells tr ! i = Doc_cell ''N/A'' ''N/A'')"
proof -
  have t: "truthy rd" using assms(1,2) by simp
  have p: "py_get rd ''props'' (JObj []) = Inr (JObj [])"
    using assms(1,3) by auto
  have csv: "row_get row (doc_header (cols ! i)) = Some (JStr ''N/A'')"
    if "csv_row fd ird True fs cols ticket rd = Inr row"
  proof -
    have "cols ! i \<in> set cols" using assms(4) by simp
    from csv_row_doc_column[OF that this] t p show ?thesis by (auto simp: NA_def)
  qed
  have html: "doc_cells tr ! i = Doc_cell ''N/A'' ''N/A''"
    if e: "html_enrich ird True fs td0 rd = Inr (td, ks)"
      and r: "html_table_row fm ird True fs cols td = Inr tr"
  proof -
    from html_enrich_props[OF e] p have tp: "td_props td = JObj []" by auto
    have "map_exn (doc_cell fm (td_props td)) cols = Inr (doc_cells tr)"
      using html_table_row_cells(2)[OF r] by simp
    then have "doc_cell fm (td_props td) (cols ! i) = Inr (doc_cells tr ! i)"
      using map_exn_nth assms(4) by blast
    then show ?thesis unfolding tp by (simp add: doc_cell_absent)
  qed
  show ?thesis using csv html by blast
qed

theorem no_properties_placeholder_in_both_witness:
  "(\<exists>row. csv_row Some False True [] [''owner''] rule_ticket plain_rule = Inr row
       \<and> row_get row ''Rule Doc: Owner'' = Some (JStr ''N/A''))
   \<and> (\<exists>td0 d p r td ks tr.
         html_base Some (\<lambda>v. []) [] rule_ticket = Inr (td0, d, p, r)
       \<and> html_enrich False True [] td0 plain_rule = Inr (td, ks)
       \<and> html_table_row (\<lambda>v. []) False True [] [''owner''] td = Inr tr
       \<and> doc_cells tr ! 0 = Doc_cell ''N/A'' ''N/A'')"
proof -
  have h: "plain_rule = JObj [(''ruleName'', JStr ''allow-dns'')]" by (simp add: plain_rule_def)
  note main = no_properties_placeholder_in_both[OF h, of 0 "[''owner'']", simplified]
  have dh: "doc_header ''owner'' = ''Rule Doc: Owner''"
    by (simp add: doc_header_def header_name_def replace_char_def title_def lower_letters_def
          upper_letters_def to_upper_def to_lower_def)
  from example_plain_rule_csv obtain row where
    c: "csv_row Some False True [] [''owner''] rule_ticket plain_rule = Inr row" by blast
  from example_plain_rule_row obtain td0 d p r td ks tr where
    b: "html_base Some (\<lambda>v. []) [] rule_ticket = Inr (td0, d, p, r)"
    and e: "html_enrich False True [] td0 plain_rule = Inr (td, ks)"
    and t: "html_table_row (\<lambda>v. []) False True [] [''owner''] td = Inr tr" by blast
  have "row_get row ''Rule Doc: Owner'' = Some (JStr ''N/A'')"
    using main[THEN conjunct1, of Some False "[]" rule_ticket row] c dh by simp
  moreover have "doc_cells tr ! 0 = Doc_cell ''N/A'' ''N/A''"
    using main[THEN conjunct2, of False "[]" td0 td ks "\<lambda>v. []" tr] e t by simp
  ultimately show ?thesis using c b e t by blast
qed

text \<open>
  C3. A ticket whose variables lack the device id, or lack the rule guid or the policy
  guid (absent or empty), causes no rule-detail lookup in either renderer. Its CSV row
  holds \<open>N/A\<close> under every requested rule-detail column and every documentation column
  of the run, and its HTML row shows \<open>N/A\<close> in every such cell.
\<close>

theorem ticket_without_rule_ids_gets_placeholders:
  assumes "py_get ticket ''variables'' (JObj []) = Inr (JObj vs)"
    and "map_of vs ''deviceId'' = None
           \<or> map_of vs ''ruleGuid'' = None \<or> map_of vs ''ruleGuid'' = Some (JStr [])
           \<or> map_of vs ''policyGuid'' = None \<or> map_of vs ''policyGuid'' = Some (JStr [])"
  shows "csv_enrich http ird irdoc ticket = ([], Return (JNull, []))
       \<and> (csv_row fd ird irdoc (select_detail_fields rdf) cols ticket JNull = Inr row
            \<longrightarrow> (ird \<longrightarrow> (\<forall>f \<in> set (select_detail_fields rdf). row_get row (title f) = Some (JStr ''N/A'')))
              \<and> (irdoc \<longrightarrow> (\<forall>f \<in> set cols. row_get row (doc_header f) = Some (JStr ''N/A''))))
       \<and> fst (html_ticket_data http fd fm burl ird irdoc (select_detail_fields rdf) ticket) = []
       \<and> (html_ticket_data http fd fm burl ird irdoc (select_detail_fields rdf) ticket = (evs, Inr (td, ks))
              \<and> html_table_row fm ird irdoc (select_detail_fields rdf) cols td = Inr tr
            \<longrightarrow> detail_cells tr = (if ird then map (\<lambda>f. Text ''N/A'') (select_detail_fields rdf) else [])
              \<and> doc_cells tr = (if irdoc then map (\<lambda>f. Doc_cell ''N/A'' ''N/A'') cols else []))"
proof -
  let ?fs = "select_detail_fields rdf"
  have csv: "(ird \<longrightarrow> (\<forall>f \<in> set ?fs. row_get row (title f) = Some (JStr ''N/A'')))
           \<and> (irdoc \<longrightarrow> (\<forall>f \<in> set cols. row_get row (doc_header f) = Some (JStr ''N/A'')))"
    if r: "csv_row fd ird irdoc ?fs cols ticket JNull = Inr row"
  proof (intro conjI impI ballI)
    fix f assume "ird" "f \<in> set ?fs"
    with csv_row_detail_column[OF _ select_detail_fields_subset, of fd irdoc rdf cols ticket JNull row f] r
    show "row_get row (title f) = Some (JStr ''N/A'')" by (auto simp: NA_def)
  next
    fix f assume "irdoc" "f \<in> set cols"
    with csv_row_doc_column[of fd ird ?fs cols ticket JNull row f] r
    show "row_get row (doc_header f) = Some (JStr ''N/A'')" by (auto simp: NA_def)
  qed
  have html: "detail_cells tr = (if ird then map (\<lambda>f. Text ''N/A'') ?fs else [])
              \<and> doc_cells tr = (if irdoc then map (\<lambda>f. Doc_cell ''N/A'' ''N/A'') cols else [])"
    if h: "html_ticket_data http fd fm burl ird irdoc ?fs ticket = (evs, Inr (td, ks))"
      and t: "html_table_row fm ird irdoc ?fs cols td = Inr tr"
  proof -
    from html_ticket_data_lacking_ids(2)[OF assms h]
    have e: "td_details td = []" "td_props td = JObj []" by simp_all
    have "map_exn (doc_cell fm (JObj [])) cols = Inr (map (\<lambda>f. Doc_cell ''N/A'' ''N/A'') cols)"
      by (rule map_exn_total) (simp add: doc_cell_absent)
    with html_table_row_cells[OF t] show ?thesis
      by (simp add: e py_format_def NA_def split: if_splits)
  qed
  show ?thesis
    using csv_enrich_lacking_ids[OF assms] html_ticket_data_lacking_ids(1)[OF assms] csv html
    by blast
qed

theorem ticket_without_rule_ids_gets_placeholders_witness:
  "csv_enrich rule_server True True review_ticket = ([], Return (JNull, []))
   \<and> (\<exists>row. csv_row Some True True (select_detail_fields None) [''owner''] review_ticket JNull = Inr row
          \<and> row_get row (title ''source'') = Some (JStr ''N/A'')
          \<and> row_get row (title ''action'') = Some (JStr ''N/A'')
          \<and> row_get row (doc_header ''owner'') = Some (JStr ''N/A''))
   \<and> (\<exists>evs td ks tr.
          html_ticket_data rule_server Some (\<lambda>v. []) [] True True (select_detail_fields None) review_ticket
            = (evs, Inr (td, ks))
        \<and> evs = []
        \<and> html_table_row (\<lambda>v. []) True True (select_detail_fields None) [''owner''] td = Inr tr
        \<and> detail_cells tr = [Text ''N/A'', Text ''N/A'', Text ''N/A'', Text ''N/A'', Text ''N/A'']
        \<and> doc_cells tr = [Doc_cell ''N/A'' ''N/A''])"
proof -
  have v: "py_get review_ticket ''variables'' (JObj []) = Inr (JObj [])"
    by (simp add: review_ticket_def)
  have l: "map_of ([] :: (string \<times> json) list) ''deviceId'' = None
           \<or> map_of ([] :: (string \<times> json) list) ''ruleGuid'' = None
           \<or> map_of ([] :: (string \<times> json) list) ''ruleGuid'' = Some (JStr [])
           \<or> map_of ([] :: (string \<times> json) list) ''policyGuid'' = None
           \<or> map_of ([] :: (string \<times> json) list) ''policyGuid'' = Some (JStr [])"
    by simp
  note main = ticket_without_rule_ids_gets_placeholders[OF v l, where ird = True and irdoc = True
      and http = rule_server and fd = Some and rdf = None and cols = "[''owner'']"
      and fm = "\<lambda>v. []" and burl = "[]"]
  from example_unenriched_rows obtain row evs td ks tr where
    c: "csv_row Some True True (select_detail_fields None) [''owner''] review_ticket JNull = Inr row"
    and h: "html_ticket_data rule_server Some (\<lambda>v. []) [] True True (select_detail_fields None) review_ticket
            = (evs, Inr (td, ks))"
    and t: "html_table_row (\<lambda>v. []) True True (select_detail_fields None) [''owner''] td = Inr tr"
    by blast
  have a: "csv_enrich rule_server True True review_ticket = ([], Return (JNull, []))"
    using main by blast
  have b: "row_get row (title ''source'') = Some (JStr ''N/A'')
          \<and> row_get row (title ''action'') = Some (JStr ''N/A'')
          \<and> row_get row (doc_header ''owner'') = Some (JStr ''N/A'')"
    using main[of row] c by (simp add: select_detail_fields_def available_detail_fields_def)
  have e: "evs = []"
    using main[of row] h by simp
  have d: "detail_cells tr = [Text ''N/A'', Text ''N/A'', Text ''N/A'', Text ''N/A'', Text ''N/A'']
        \<and> doc_cells tr = [Doc_cell ''N/A'' ''N/A'']"
    using main[of row evs td ks tr] h t by (simp add: select_detail_fields_def available_detail_fields_def)
  show ?thesis using a b c d e h t by blast
qed

text \<open>
  C6. In the projection of a row, the application entries whose display name is the
  literal \<open>Any\<close> are removed before the names are joined, so a list that holds only such
  entries gives \<open>Any\<close>, the text for an empty list. An absent or empty source list gives
  \<open>Any\<close>, and a source list with entries gives their display names joined by a comma
  and a blank. These are the values of the columns \<open>Application\<close> and \<open>Source\<close> of
  the CSV row and of the matching cells of the HTML row.
\<close>

theorem application_and_source_lists:
  assumes "rd = JObj r" and "r \<noteq> []" and "fs = select_detail_fields rdf"
  shows "(map_of r ''apps'' = Some (JArr (map JObj as))
            \<longrightarrow> application_value rd =
                  joined_or_any (map (\<lambda>a. case map_of a ''displayName'' of Some v \<Rightarrow> v | None \<Rightarrow> NA)
                                   (filter (\<lambda>a. map_of a ''displayName'' \<noteq> Some (JStr ''Any'')) as)))
       \<and> (map_of r ''apps'' = Some (JArr (map JObj as))
              \<and> (\<forall>a \<in> set as. map_of a ''displayName'' = Some (JStr ''Any''))
            \<longrightarrow> application_value rd = Inr (JStr ''Any''))
       \<and> (map_of r ''sources'' = None \<or> map_of r ''sources'' = Some (JArr [])
            \<longrightarrow> source_value rd = Inr (JStr ''Any''))
       \<and> (map_of r ''sources'' = Some (JArr (map JObj ss)) \<and> ss \<noteq> []
              \<and> map (\<lambda>s. case map_of s ''displayName'' of Some v \<Rightarrow> v | None \<Rightarrow> NA) ss = map JStr ns
            \<longrightarrow> source_value rd = Inr (JStr (join_str '', '' ns)))
       \<and> (csv_row fd True irdoc fs cols ticket rd = Inr row
            \<longrightarrow> (''application'' \<in> set fs
                   \<longrightarrow> (\<exists>v. application_value rd = Inr v \<and> row_get row ''Application'' = Some v))
              \<and> (''source'' \<in> set fs
                   \<longrightarrow> (\<exists>v. source_value rd = Inr v \<and> row_get row ''Source'' = Some v)))
       \<and> (html_enrich True irdoc fs td0 rd = Inr (td, ks)
              \<and> html_table_row fm True irdoc' fs hcols td = Inr tr \<and> i < length fs
            \<longrightarrow> (fs ! i = ''application''
                   \<longrightarrow> (\<exists>v. application_value rd = Inr v \<and> detail_cells tr ! i = Text (py_format fm v)))
              \<and> (fs ! i = ''source''
                   \<longrightarrow> (\<exists>v. source_value rd = Inr v \<and> detail_cells tr ! i = Text (py_format fm v))))"
proof -
  have t: "truthy rd" using assms(1,2) by simp
  have sub: "set fs \<subseteq> set available_detail_fields"
    unfolding assms(3) by (rule select_detail_fields_subset)
  have dv: "detail_value ''application'' rd = application_value rd"
    "detail_value ''source'' rd = source_value rd"
    by (simp_all add: detail_value_def)
  have a1: "application_value rd =
                  joined_or_any (map (\<lambda>a. case map_of a ''displayName'' of Some v \<Rightarrow> v | None \<Rightarrow> NA)
                                   (filter (\<lambda>a. map_of a ''displayName'' \<noteq> Some (JStr ''Any'')) as))"
    if "map_of r ''apps'' = Some (JArr (map JObj as))"
    unfolding assms(1) using that by (rule application_value_filtered)
  have a2: "application_value rd = Inr (JStr ''Any'')"
    if "map_of r ''apps'' = Some (JArr (map JObj as))"
      and "\<forall>a \<in> set as. map_of a ''displayName'' = Some (JStr ''Any'')"
  proof -
    have "filter (\<lambda>a. map_of a ''displayName'' \<noteq> Some (JStr ''Any'')) as = []"
      using that(2) by (simp add: filter_empty_conv)
    then show ?thesis unfolding a1[OF that(1)] by (simp add: joined_or_any_def)
  qed
  have s1: "source_value rd = Inr (JStr ''Any'')"
    if "map_of r ''sources'' = None \<or> map_of r ''sources'' = Some (JArr [])"
    unfolding assms(1) using that by (rule source_value_empty)
  have s2: "source_value rd = Inr (JStr (join_str '', '' ns))"
    if "map_of r ''sources'' = Some (JArr (map JObj ss))" "ss \<noteq> []"
      "map (\<lambda>s. case map_of s ''displayName'' of Some v \<Rightarrow> v | None \<Rightarrow> NA) ss = map JStr ns"
    unfolding assms(1) using that by (rule source_value_joined)
  have csv: "\<exists>v. detail_value f rd = Inr v \<and> row_get row (title f) = Some v"
    if "csv_row fd True irdoc fs cols ticket rd = Inr row" "f \<in> set fs" for f
    using csv_row_detail_column[OF that(1) sub that(2)] t by auto
  have html: "\<exists>v. detail_value (fs ! i) rd = Inr v \<and> detail_cells tr ! i = Text (py_format fm v)"
    if e: "html_enrich True irdoc fs td0 rd = Inr (td, ks)"
      and r: "html_table_row fm True irdoc' fs hcols td = Inr tr" and i: "i < length fs"
  proof -
    have m: "fs ! i \<in> set fs" using i by simp
    then have "fs ! i \<in> set available_detail_fields" using sub by blast
    from html_enrich_detail[OF e m this] obtain v where
      v: "detail_value (fs ! i) rd = Inr v" "map_of (td_details td) (fs ! i) = Some v" by blast
    have "detail_cells tr ! i = Text (py_format fm v)"
      unfolding html_table_row_cells(1)[OF r] using i v(2) by simp
    with v(1) show ?thesis by blast
  qed
  show ?thesis
    using a1 a2 s1 s2 csv[of "''application''"] csv[of "''source''"] html
    unfolding title_application title_source
    by (metis dv)
qed

theorem application_and_source_lists_witness:
  "application_value documented_rule = Inr (JStr ''Any'')
   \<and> source_value documented_rule = Inr (JStr ''net-a, net-b'')
   \<and> source_value plain_rule = Inr (JStr ''Any'')
   \<and> (\<exists>row. csv_row Some True False (select_detail_fields None) [] rule_ticket documented_rule = Inr row
          \<and> row_get row ''Application'' = Some (JStr ''Any'')
          \<and> row_get row ''Source'' = Some (JStr ''net-a, net-b''))
   \<and> (\<exists>td0 d p r td ks tr.
          html_base Some (\<lambda>v. []) [] rule_ticket = Inr (td0, d, p, r)
        \<and> html_enrich True False (select_detail_fields None) td0 documented_rule = Inr (td, ks)
        \<and> html_table_row (\<lambda>v. []) True False (select_detail_fields None) [] td = Inr tr
        \<and> detail_cells tr ! 0 = Text ''net-a, net-b''
        \<and> detail_cells tr ! 3 = Text ''Any'')"
proof -
  define r where "r = [(''ruleName'', JStr ''allow-web''),
           (''sources'', JArr [JObj [(''displayName'', JStr ''net-a'')],
                               JObj [(''displayName'', JStr ''net-b'')]]),
           (''apps'', JArr [JObj [(''displayName'', JStr ''Any'')]]),
           (''props'', JObj [(''owner'', JStr long_value), (''approver'', JStr ''carol'')])]"
  have h: "documented_rule = JObj r" by (simp add: documented_rule_def r_def)
  have ne: "r \<noteq> []" by (simp add: r_def)
  have fs: "select_detail_fields None = select_detail_fields None" ..
  note main = application_and_source_lists[OF h ne fs, where fd = Some and irdoc = False
      and cols = "[]" and ticket = rule_ticket and fm = "\<lambda>v. []" and irdoc' = False and hcols = "[]"]
  have a: "application_value documented_rule = Inr (JStr ''Any'')"
    using main[THEN conjunct2, THEN conjunct1, of "[[(''displayName'', JStr ''Any'')]]"]
    by (simp add: r_def)
  have s: "source_value documented_rule = Inr (JStr ''net-a, net-b'')"
    using main[THEN conjunct2, THEN conjunct2, THEN conjunct2, THEN conjunct1,
        of "[[(''displayName'', JStr ''net-a'')], [(''displayName'', JStr ''net-b'')]]"
           "[''net-a'', ''net-b'']"]
    by (simp add: r_def)
  have p: "source_value plain_rule = Inr (JStr ''Any'')"
    using application_and_source_lists[of plain_rule "[(''ruleName'', JStr ''allow-dns'')]" _ None,
        THEN conjunct2, THEN conjunct2, THEN conjunct1]
    by (simp add: plain_rule_def)
  from example_detailed_rows obtain row td0 d pg rg td ks tr where
    c: "csv_row Some True False (select_detail_fields None) [] rule_ticket documented_rule = Inr row"
    and b: "html_base Some (\<lambda>v. []) [] rule_ticket = Inr (td0, d, pg, rg)"
    and e: "html_enrich True False (select_detail_fields None) td0 documented_rule = Inr (td, ks)"
    and t: "html_table_row (\<lambda>v. []) True False (select_detail_fields None) [] td = Inr tr"
    by blast
  have sel: "select_detail_fields None = [''source'', ''destination'', ''service'', ''application'', ''action'']"
    by (simp add: select_detail_fields_def available_detail_fields_def)
  have cr: "row_get row ''Application'' = Some (JStr ''Any'')
          \<and> row_get row ''Source'' = Some (JStr ''net-a, net-b'')"
    using main[THEN conjunct2, THEN conjunct2, THEN conjunct2, THEN conjunct2, THEN conjunct1, of row]
      c a s by (simp add: sel)
  have h0: "detail_cells tr ! 0 = Text ''net-a, net-b''"
    using main[THEN conjunct2, THEN conjunct2, THEN conjunct2, THEN conjunct2, THEN conjunct2,
        of td0 td ks tr 0] e t s by (simp add: sel py_format_def)
  have h3: "detail_cells tr ! 3 = Text ''Any''"
    using main[THEN conjunct2, THEN conjunct2, THEN conjunct2, THEN conjunct2, THEN conjunct2,
        of td0 td ks tr 3] e t a by (simp add: sel py_format_def)
  show ?thesis using a s p c cr b e t h0 h3 by blast
qed

text \<open>
  C10. A ticket whose status is none of \<open>Review\<close>, \<open>Completed\<close>, \<open>Cancelled\<close> (an
  absent status is shown as \<open>N/A\<close>) gets \<open>N/A\<close> in the column
  \<open>Assignee/Completed By\<close> of both reports, whatever its assignee and \<open>completedBy\<close>
  hold. It counts in the total of the HTML summary and of the final summary, and in none
  of the three status figures, whose sum is then smaller than the total; a run that
  returns does print that final summary.
\<close>

theorem other_status_renders_placeholder:
  assumes "map_of t ''status'' \<notin> {Some (JStr ''Review''), Some (JStr ''Completed''), Some (JStr ''Cancelled'')}"
    and "st = (case map_of t ''status'' of Some v \<Rightarrow> v | None \<Rightarrow> JStr ''N/A'')"
  shows "(csv_row fd ird irdoc (select_detail_fields rdf) cols (JObj t) rd = Inr row
            \<longrightarrow> row_get row ''Assignee/Completed By'' = Some (JStr ''N/A'')
              \<and> row_get row ''Status'' = Some st)
       \<and> (html_ticket_data http fd fm burl ird irdoc fs (JObj t) = (evs, Inr (td, ks))
            \<longrightarrow> td_assignee_completed td = JStr ''N/A'' \<and> td_status td = st)
       \<and> (JObj t \<in> set tickets
            \<and> Write_html f doc \<in> set (fst (generate_html_report http fd fm burl tickets out ird irdoc rdf rdocf))
            \<longrightarrow> total_count doc = length tickets
              \<and> review_count doc + completed_count doc + cancelled_count doc < total_count doc)
       \<and> (JObj t \<in> set tickets \<and> Summary n a b c \<in> set (fst (make_reports w opts tickets))
            \<longrightarrow> n = length tickets \<and> a + b + c < n)
       \<and> (JObj t \<in> set tickets \<and> snd (make_reports w opts tickets) = Return ()
            \<longrightarrow> (\<exists>x y z. Summary (length tickets) x y z \<in> set (fst (make_reports w opts tickets))
                  \<and> x + y + z < length tickets))"
proof -
  have st: "py_get (JObj t) ''status'' NA = Inr st"
    using assms(2) by (simp add: NA_def)
  have "st \<notin> {JStr ''Review'', JStr ''Completed'', JStr ''Cancelled''}"
    using assms by (auto split: option.splits)
  then have ac: "assignee_completed_of (JObj t) st = Inr (JStr ''N/A'')"
    using assignee_completed_of_other[of st "JObj t"] by (simp add: NA_def)
  have csv: "row_get row ''Assignee/Completed By'' = Some (JStr ''N/A'') \<and> row_get row ''Status'' = Some st"
    if "csv_row fd ird irdoc (select_detail_fields rdf) cols (JObj t) rd = Inr row"
  proof -
    from that select_detail_fields_subset obtain st' ac' where
      "py_get (JObj t) ''status'' NA = Inr st'" "assignee_completed_of (JObj t) st' = Inr ac'"
      "row_get row ''Status'' = Some st'"
      "row_get row ''Assignee/Completed By'' = Some ac'"
      by (rule csv_row_base_columns)
    with st ac show ?thesis by simp
  qed
  have html: "td_assignee_completed td = JStr ''N/A'' \<and> td_status td = st"
    if "html_ticket_data http fd fm burl ird irdoc fs (JObj t) = (evs, Inr (td, ks))"
  proof -
    from that obtain st' ac' where
      "py_get (JObj t) ''status'' NA = Inr st'" "assignee_completed_of (JObj t) st' = Inr ac'"
      "td_status td = st'" "td_assignee_completed td = ac'"
      by (rule html_ticket_data_Inr)
    with st ac show ?thesis by simp
  qed
  have counts: "total_count doc = length tickets
              \<and> review_count doc + completed_count doc + cancelled_count doc < total_count doc"
    if "JObj t \<in> set tickets"
      and "Write_html f doc \<in> set (fst (generate_html_report http fd fm burl tickets out ird irdoc rdf rdocf))"
    using generate_html_report_written[OF that(2)] status_buckets_less[OF that(1) assms(1)]
    by simp
  have summary: "n = length tickets \<and> a + b + c < n"
    if "JObj t \<in> set tickets" and "Summary n a b c \<in> set (fst (make_reports w opts tickets))"
    using make_reports_summary[OF that(2)] status_buckets_less[OF that(1) assms(1)]
    by simp
  have printed: "\<exists>x y z. Summary (length tickets) x y z \<in> set (fst (make_reports w opts tickets))
                  \<and> x + y + z < length tickets"
    if m: "JObj t \<in> set tickets" and "snd (make_reports w opts tickets) = Return ()"
  proof -
    from make_reports_returns_summary[OF that(2)] obtain x y z where
      s: "Summary (length tickets) x y z \<in> set (fst (make_reports w opts tickets))" by blast
    from make_reports_summary[OF s] status_buckets_less[OF m assms(1)]
    have "x + y + z < length tickets" by simp
    with s show ?thesis by blast
  qed
  show ?thesis using csv html counts summary printed by blast
qed

theorem other_status_renders_placeholder_witness:
  "(\<exists>row. csv_row Some False False (select_detail_fields None) [] draft_ticket JNull = Inr row
       \<and> row_get row ''Assignee/Completed By'' = Some (JStr ''N/A'')
       \<and> row_get row ''Status'' = Some (JStr ''Draft''))
   \<and> (\<exists>evs td ks tr.
         html_ticket_data rule_server Some (\<lambda>v. []) [] True True (select_detail_fields None) draft_ticket
           = (evs, Inr (td, ks))
       \<and> html_table_row (\<lambda>v. []) True True (select_detail_fields None) [] td = Inr tr
       \<and> td_assignee_completed td = JStr ''N/A''
       \<and> td_status td = JStr ''Draft''
       \<and> base_cells tr ! 4 = Text ''N/A'')
   \<and> (\<exists>doc. Write_html ''r.html'' doc
               \<in> set (fst (generate_html_report (\<lambda>d p r. Request_exception) Some (\<lambda>v. []) []
                             [review_ticket, draft_ticket] ''r.html'' False False None None))
            \<and> total_count doc = 2
            \<and> review_count doc + completed_count doc + cancelled_count doc < total_count doc)
   \<and> Summary 2 1 0 0 \<in> set (fst (make_reports example_world example_options [review_ticket, draft_ticket]))
   \<and> (1::nat) + 0 + 0 < 2
   \<and> snd (make_reports example_world example_options [review_ticket, draft_ticket]) = Return ()
   \<and> (\<exists>x y z. Summary 2 x y z
                 \<in> set (fst (make_reports example_world example_options [review_ticket, draft_ticket]))
              \<and> x + y + z < 2)"
proof -
  define t where "t = [(''businessKey'', JStr ''PO-3''), (''status'', JStr ''Draft''),
                       (''assignee'', JObj [(''displayName'', JStr ''Alice'')]),
                       (''completedBy'', JObj [(''displayName'', JStr ''Bob'')])]"
  have d: "draft_ticket = JObj t" by (simp add: draft_ticket_def t_def)
  have h1: "map_of t ''status'' \<notin> {Some (JStr ''Review''), Some (JStr ''Completed''), Some (JStr ''Cancelled'')}"
    by (simp add: t_def)
  have h2: "JStr ''Draft'' = (case map_of t ''status'' of Some v \<Rightarrow> v | None \<Rightarrow> JStr ''N/A'')"
    by (simp add: t_def)
  note main = other_status_renders_placeholder[OF h1 h2]
  obtain row where r: "csv_row Some False False (select_detail_fields None) [] draft_ticket JNull = Inr row"
    by (simp add: eval_row draft_ticket_def)
  from example_draft_html obtain evs td ks tr where
    h: "html_ticket_data rule_server Some (\<lambda>v. []) [] True True (select_detail_fields None) draft_ticket
           = (evs, Inr (td, ks))"
    and tr: "html_table_row (\<lambda>v. []) True True (select_detail_fields None) [] td = Inr tr"
    by blast
  obtain doc where w: "Write_html ''r.html'' doc
               \<in> set (fst (generate_html_report (\<lambda>d p r. Request_exception) Some (\<lambda>v. []) []
                             [review_ticket, draft_ticket] ''r.html'' False False None None))"
    using example_html_report by auto
  have c1: "row_get row ''Assignee/Completed By'' = Some (JStr ''N/A'') \<and> row_get row ''Status'' = Some (JStr ''Draft'')"
    using main[THEN conjunct1, of Some False False None "[]" JNull row] r by (simp add: d)
  have c2: "td_assignee_completed td = JStr ''N/A'' \<and> td_status td = JStr ''Draft''"
    using main[THEN conjunct2, THEN conjunct1,
               of rule_server Some "\<lambda>v. []" "[]" True True "select_detail_fields None" evs td ks] h
    by (simp add: d)
  have c2': "base_cells tr ! 4 = Text ''N/A''"
    using html_table_row_base[OF tr] c2 by (simp add: py_format_def)
  have c3: "total_count doc = 2
      \<and> review_count doc + completed_count doc + cancelled_count doc < total_count doc"
    using main[THEN conjunct2, THEN conjunct2, THEN conjunct1,
              of "[review_ticket, draft_ticket]" "''r.html''" doc "\<lambda>d p r. Request_exception" Some
                 "\<lambda>v. []" "[]" "''r.html''" False False None None] w
    by (simp add: d)
  have c4: "(1::nat) + 0 + 0 < 2"
    using main[THEN conjunct2, THEN conjunct2, THEN conjunct2, THEN conjunct1,
              of "[review_ticket, draft_ticket]" 2 1 0 0 example_world example_options]
      example_run_summary
    by (simp add: d)
  have c5: "\<exists>x y z. Summary 2 x y z
                 \<in> set (fst (make_reports example_world example_options [review_ticket, draft_ticket]))
              \<and> x + y + z < 2"
    using main[THEN conjunct2, THEN conjunct2, THEN conjunct2, THEN conjunct2,
              of "[review_ticket, draft_ticket]" example_world example_options]
      example_run_returns
    by (simp add: d numeral_2_eq_2)
  show ?thesis
    using r c1 h tr c2 c2' w c3 example_run_summary c4 example_run_returns c5 by blast
qed

text \<open>
  C2. The ticket fetcher builds one filter expression from the workflow id, the status
  (when one is given and it is not \<open>all\<close>) and the lookback in days (when one is
  given), in each of the four combinations. It then asks for pages of 100 tickets from
  page 0 on and returns the tickets of all pages up to and including the first page with
  fewer than 100 tickets (an empty page or one without results included). A request
  failure or a status other than 200 on the page reached logs an error and ends the
  process with status 1.
\<close>

theorem fetch_builds_query_and_pages:
  assumes "search = http (qt (build_query wid st days))"
    and "\<And>j. j < k \<Longrightarrow>
           search j 100 = Response 200 (Some (JObj (d j)))
           \<and> map_of (d j) ''results'' = Some (JArr (page j)) \<and> 100 \<le> length (page j)"
  shows "(st = Some s \<and> s \<noteq> [] \<and> lower s \<noteq> ''all'' \<and> days = Some n \<and> n \<noteq> 0
            \<longrightarrow> build_query wid st days =
                  ''review { (workflow = '' @ str_int wid @ '' AND status = '' @ quoted s
                    @ '' AND created ~ DATE('' @ quoted (''-'' @ str_int n @ '' days'') @ '')) }'')
       \<and> ((st = None \<or> st = Some [] \<or> (\<exists>a. st = Some a \<and> lower a = ''all'')) \<and> days = Some n \<and> n \<noteq> 0
            \<longrightarrow> build_query wid st days =
                  ''review { (workflow = '' @ str_int wid
                    @ '' AND created ~ DATE('' @ quoted (''-'' @ str_int n @ '' days'') @ '')) }'')
       \<and> (st = Some s \<and> s \<noteq> [] \<and> lower s \<noteq> ''all'' \<and> (days = None \<or> days = Some 0)
            \<longrightarrow> build_query wid st days =
                  ''review { workflow = '' @ str_int wid @ '' AND status = '' @ quoted s @ '' }'')
       \<and> ((st = None \<or> st = Some [] \<or> (\<exists>a. st = Some a \<and> lower a = ''all''))
              \<and> (days = None \<or> days = Some 0)
            \<longrightarrow> build_query wid st days = ''review { workflow = '' @ str_int wid @ '' }'')
       \<and> (search k 100 = Response 200 (Some (JObj (d k)))
              \<and> (map_of (d k) ''results'' = Some (JArr (page k)) \<and> length (page k) < 100
                  \<or> map_of (d k) ''results'' = None \<and> page k = [])
            \<longrightarrow> get_po_tickets qt http wid st days
                  = Some ([], Return (concat (map page [0..<Suc k]))))
       \<and> (search k 100 = Request_exception
              \<or> (\<exists>code body. search k 100 = Response code body \<and> code \<noteq> 200)
            \<longrightarrow> (\<exists>m. get_po_tickets qt http wid st days = Some ([Log_error m], Exit 1)))"
proof -
  have q: "build_query wid st days =
        (case days_given days of
           Some n \<Rightarrow>
             (case status_given st of
                Some s \<Rightarrow> ''review { (workflow = '' @ str_int wid @ '' AND status = '' @ quoted s
                    @ '' AND created ~ DATE('' @ quoted (''-'' @ str_int n @ '' days'') @ '')) }''
              | None \<Rightarrow> ''review { (workflow = '' @ str_int wid
                    @ '' AND created ~ DATE('' @ quoted (''-'' @ str_int n @ '' days'') @ '')) }'')
         | None \<Rightarrow>
             (case status_given st of
                Some s \<Rightarrow> ''review { workflow = '' @ str_int wid @ '' AND status = '' @ quoted s @ '' }''
              | None \<Rightarrow> ''review { workflow = '' @ str_int wid @ '' }''))"
    by (simp add: build_query_def)
  have sp: "status_given st = Some s" if "st = Some s \<and> s \<noteq> [] \<and> lower s \<noteq> ''all''"
    using that by (simp add: status_given_def)
  have sa: "status_given st = None" if "st = None \<or> st = Some [] \<or> (\<exists>a. st = Some a \<and> lower a = ''all'')"
    using that by (auto simp: status_given_def)
  have dp: "days_given days = Some n" if "days = Some n \<and> n \<noteq> 0"
    using that by (simp add: days_given_def)
  have da: "days_given days = None" if "days = None \<or> days = Some 0"
    using that by (auto simp: days_given_def)
  have run: "fetch_pages search 0 [] = fetch_pages search k (concat (map page [0..<k]))"
    using fetch_pages_full_run[of 0 k search d page "[]"] assms(2) by (simp add: page_size_def)
  have g: "get_po_tickets qt http wid st days = fetch_pages search 0 []"
    by (simp add: get_po_tickets_def assms(1))
  have ok: "get_po_tickets qt http wid st days = Some ([], Return (concat (map page [0..<Suc k])))"
    if "search k 100 = Response 200 (Some (JObj (d k)))
              \<and> (map_of (d k) ''results'' = Some (JArr (page k)) \<and> length (page k) < 100
                  \<or> map_of (d k) ''results'' = None \<and> page k = [])"
    unfolding g run using that
    by (auto simp: fetch_pages_short_page fetch_pages_no_results page_size_def)
  have bad: "\<exists>m. get_po_tickets qt http wid st days = Some ([Log_error m], Exit 1)"
    if "search k 100 = Request_exception
              \<or> (\<exists>code body. search k 100 = Response code body \<and> code \<noteq> 200)"
    unfolding g run using that
    by (auto simp: fetch_pages_request_failure fetch_pages_http_error page_size_def)
  have q1: "build_query wid st days =
                  ''review { (workflow = '' @ str_int wid @ '' AND status = '' @ quoted s
                    @ '' AND created ~ DATE('' @ quoted (''-'' @ str_int n @ '' days'') @ '')) }''"
    if c: "st = Some s \<and> s \<noteq> [] \<and> lower s \<noteq> ''all'' \<and> days = Some n \<and> n \<noteq> 0"
  proof -
    have "status_given st = Some s" "days_given days = Some n" using sp dp c by auto
    then show ?thesis unfolding q by simp
  qed
  have q2: "build_query wid st days =
                  ''review { (workflow = '' @ str_int wid
                    @ '' AND created ~ DATE('' @ quoted (''-'' @ str_int n @ '' days'') @ '')) }''"
    if c: "(st = None \<or> st = Some [] \<or> (\<exists>a. st = Some a \<and> lower a = ''all'')) \<and> days = Some n \<and> n \<noteq> 0"
  proof -
    have "status_given st = None" "days_given days = Some n" using sa dp c by auto
    then show ?thesis unfolding q by simp
  qed
  have q3: "build_query wid st days =
                  ''review { workflow = '' @ str_int wid @ '' AND status = '' @ quoted s @ '' }''"
    if c: "st = Some s \<and> s \<noteq> [] \<and> lower s \<noteq> ''all'' \<and> (days = None \<or> days = Some 0)"
  proof -
    have "status_given st = Some s" "days_given days = None" using sp da c by auto
    then show ?thesis unfolding q by simp
  qed
  have q4: "build_query wid st days = ''review { workflow = '' @ str_int wid @ '' }''"
    if c: "(st = None \<or> st = Some [] \<or> (\<exists>a. st = Some a \<and> lower a = ''all''))
              \<and> (days = None \<or> days = Some 0)"
  proof -
    have "status_given st = None" "days_given days = None" using sa da c by auto
    then show ?thesis unfolding q by simp
  qed
  show ?thesis
    using q1 q2 q3 q4 ok bad by blast
qed

theorem fetch_builds_query_and_pages_witness:
  "build_query 2 (Some ''Review'') (Some 30)
     = ''review { (workflow = 2 AND status = 'Review' AND created ~ DATE('-30 days')) }''
   \<and> build_query 2 (Some ''ALL'') (Some 30) = ''review { (workflow = 2 AND created ~ DATE('-30 days')) }''
   \<and> build_query 2 (Some ''Review'') (Some 0) = ''review { workflow = 2 AND status = 'Review' }''
   \<and> build_query 2 None None = ''review { workflow = 2 }''
   \<and> get_po_tickets (\<lambda>s. s) two_page_search 2 (Some ''all'') None
       = Some ([], Return (replicate 100 review_ticket @ [draft_ticket]))
   \<and> get_po_tickets (\<lambda>s. s) empty_search 2 (Some ''all'') None = Some ([], Return [])
   \<and> get_po_tickets (\<lambda>s. s) broken_search 2 (Some ''all'') None
       = Some ([Log_error (Fetch_http_error 503)], Exit 1)"
proof -
  have lw: "lower ''Review'' = ''review''" "lower ''ALL'' = ''all''" "lower ''all'' = ''all''"
    by (simp_all add: lower_def to_lower_def upper_letters_def lower_letters_def)
  have si: "str_int 2 = ''2''" "str_int 30 = ''30''"
    by (simp_all add: str_int_def)
  note inst = fetch_builds_query_and_pages[OF refl, where k = 0 and qt = "\<lambda>s. s" and http = empty_search
      and d = "\<lambda>j. [(''results'', JArr [])]" and page = "\<lambda>j. []", simplified]
  have q1: "build_query 2 (Some ''Review'') (Some 30)
     = ''review { (workflow = 2 AND status = 'Review' AND created ~ DATE('-30 days')) }''"
    using inst[where wid = 2 and st = "Some ''Review''" and days = "Some 30" and s = "''Review''" and n = 30,
        THEN conjunct1]
    by (simp add: lw si quoted_def)
  have q2: "build_query 2 (Some ''ALL'') (Some 30) = ''review { (workflow = 2 AND created ~ DATE('-30 days')) }''"
    using inst[where wid = 2 and st = "Some ''ALL''" and days = "Some 30" and n = 30,
        THEN conjunct2, THEN conjunct1]
    by (simp add: lw si quoted_def)
  have q3: "build_query 2 (Some ''Review'') (Some 0) = ''review { workflow = 2 AND status = 'Review' }''"
    using inst[where wid = 2 and st = "Some ''Review''" and days = "Some 0" and s = "''Review''",
        THEN conjunct2, THEN conjunct2, THEN conjunct1]
    by (simp add: lw si quoted_def)
  have q4: "build_query 2 None None = ''review { workflow = 2 }''"
    using inst[where wid = 2 and st = None and days = None,
        THEN conjunct2, THEN conjunct2, THEN conjunct2, THEN conjunct1]
    by (simp add: si)
  have e: "get_po_tickets (\<lambda>s. s) empty_search 2 (Some ''all'') None = Some ([], Return [])"
    using inst[where wid = 2 and st = "Some ''all''" and days = None,
        THEN conjunct2, THEN conjunct2, THEN conjunct2, THEN conjunct2, THEN conjunct1]
    by (simp add: empty_search_def)
  have t: "get_po_tickets (\<lambda>s. s) two_page_search 2 (Some ''all'') None
       = Some ([], Return (replicate 100 review_ticket @ [draft_ticket]))"
    using fetch_builds_query_and_pages[OF refl, where k = 1 and qt = "\<lambda>s. s" and http = two_page_search
      and d = "\<lambda>j. [(''results'', JArr (two_pages j))]" and page = two_pages
      and wid = 2 and st = "Some ''all''" and days = None,
        THEN conjunct2, THEN conjunct2, THEN conjunct2, THEN conjunct2, THEN conjunct1]
    by (simp add: two_page_search_def two_pages_def)
  have b: "get_po_tickets (\<lambda>s. s) broken_search 2 (Some ''all'') None
       = Some ([Log_error (Fetch_http_error 503)], Exit 1)"
  proof -
    have "\<exists>m. get_po_tickets (\<lambda>s. s) broken_search 2 (Some ''all'') None = Some ([Log_error m], Exit 1)"
      using fetch_builds_query_and_pages[OF refl, where k = 1 and qt = "\<lambda>s. s" and http = broken_search
        and d = "\<lambda>j. [(''results'', JArr (two_pages j))]" and page = two_pages
        and wid = 2 and st = "Some ''all''" and days = None,
          THEN conjunct2, THEN conjunct2, THEN conjunct2, THEN conjunct2, THEN conjunct2]
      by (simp add: broken_search_def two_pages_def)
    then obtain m where m: "get_po_tickets (\<lambda>s. s) broken_search 2 (Some ''all'') None = Some ([Log_error m], Exit 1)"
      by blast
    have "fetch_pages (broken_search (build_query 2 (Some ''all'') None)) 1 (two_pages 0)
            = Some ([Log_error (Fetch_http_error 503)], Exit 1)"
      by (rule fetch_pages_http_error[of _ _ 503 None]) (simp_all add: broken_search_def)
    moreover have "get_po_tickets (\<lambda>s. s) broken_search 2 (Some ''all'') None
            = fetch_pages (broken_search (build_query 2 (Some ''all'') None)) 1 (two_pages 0)"
      unfolding get_po_tickets_def
      using fetch_pages_full_page[of "broken_search (build_query 2 (Some ''all'') None)" 0
          "[(''results'', JArr (two_pages 0))]" "two_pages 0" "[]"]
      by (simp add: broken_search_def two_pages_def page_size_def)
    ultimately show ?thesis using m by simp
  qed
  show ?thesis using q1 q2 q3 q4 e t b by blast
qed

text \<open>
  C7. When the login succeeds and the fetch returns no ticket, the program ends with
  status 0 at once: no event at all is caused after the fetch, so the reports directory
  is not created and neither report file is written.
\<close>

theorem no_tickets_no_report_files:
  assumes "authenticate (login w) = (evs0, Return token)"
    and "get_po_tickets (quote w) (ticket_search w) (workflow_id opts) (status_filter opts)
           (days_filter opts) = Some (evs, Return [])"
  shows "make_reports w opts [] = ([], Exit 0)
       \<and> run_report w opts = Some ([], Exit 0)
       \<and> filter writes_report (evs0 @ evs) = []"
proof -
  have a: "evs0 = []" using assms(1) by (rule authenticate_Return_events)
  have "fetch_pages (ticket_search w (quote w (build_query (workflow_id opts) (status_filter opts)
          (days_filter opts)))) 0 [] = Some (evs, Return [])"
    using assms(2) by (simp add: get_po_tickets_def)
  from fetch_pages_events[OF this] have b: "evs = []" by simp
  have m: "make_reports w opts [] = ([], Exit 0)" by (simp add: make_reports_def)
  have "run_report w opts = Some ([], Exit 0)"
    unfolding run_report_def assms(1)[unfolded a] assms(2)[unfolded b] by (simp add: m)
  with a b m show ?thesis by simp
qed

theorem no_tickets_no_report_files_witness:
  "authenticate (login example_world) = ([], Return (JStr ''tok''))
   \<and> get_po_tickets (quote example_world) (ticket_search example_world) (workflow_id example_options)
        (status_filter example_options) (days_filter example_options) = Some ([], Return [])
   \<and> make_reports example_world example_options [] = ([], Exit 0)
   \<and> run_report example_world example_options = Some ([], Exit 0)
   \<and> Make_dirs ''po_reports''
        \<in> set (fst (make_reports example_world example_options [review_ticket, draft_ticket]))"
  using no_tickets_no_report_files[OF example_login example_empty_fetch]
    example_login example_empty_fetch example_run_creates_directory
  by simp




text \<open>
  C1. A requested documentation field that no rule of the run carries is dropped from the
  columns of both reports, but only \<open>process_tickets_to_csv\<close> says so: no run of
  \<open>generate_html_report\<close>, on any tickets and with any options, prints the warning about
  missing fields. For the ticket \<open>rule_ticket\<close>, whose rule carries the properties
  \<open>owner\<close> and \<open>approver\<close>, and the requested fields \<open>owner\<close> and \<open>reviewer\<close>, the HTML
  report has the one documentation column \<open>owner\<close> and its run consists of the rule lookup
  and the written file, while the CSV renderer, on the same input, has the same column
  and prints that \<open>reviewer\<close> was not found.
\<close>

theorem html_report_drops_requested_field_silently:
  "Warn_missing m \<notin> set (fst (generate_html_report http fd fm burl tickets out ird irdoc rdf rdocf))
   \<and> (\<exists>doc. fst (generate_html_report rule_server Some (\<lambda>v. []) [] [rule_ticket] ''r.html'' False True None
                  (Some [''owner'', ''reviewer'']))
              = [Rule_lookup (JNum 7) (JStr ''p-1'') (JStr ''r-1''), Write_html ''r.html'' doc]
            \<and> map fst (doc_headers doc) = [''Rule Doc: owner''])
   \<and> (\<exists>ls. fst (process_tickets_to_csv rule_server Some [rule_ticket] ''r.csv'' False True None
                 (Some [''owner'', ''reviewer'']))
             = [Rule_lookup (JNum 7) (JStr ''p-1'') (JStr ''r-1''), Warn_missing {''reviewer''},
                Write_csv ''r.csv'' (base_headers @ [doc_header ''owner'']) ls])"
  using generate_html_report_no_warning example_html_requested_fields example_csv_requested_fields
  by blast

end
